theory Spec2Isabelle
  imports Complex_Main "HOL-Library.AList"
begin

section \<open>Python values and the object store\<close>

text \<open>
  The module \<^verbatim>\<open>pymc3/glm/families.py\<close> is dynamically typed: an attribute of a family
  can hold any object, and dictionaries are shared by reference. Values are therefore one
  datatype, and the mutable objects (dictionaries, numeric arrays, model contexts) live in
  a store addressed by \<open>Ref\<close>.
\<close>

type_synonym addr = nat

text \<open>The elementwise operations of the tensor library bound at lines 39-41.\<close>

datatype tensor_op = Sigmoid | Reciprocal | Exponential

text \<open>
  The callables bound at module level: the instance of class \<^verbatim>\<open>Identity\<close> (line 38)
  and the three tensor-library operations.
\<close>

datatype link_fn = IdentityObj | TensorOp tensor_op

datatype pyval =
    PyNone
  | PyInt int
  | PyFloat real
  | Generic real
  | Str string
  | Callable link_fn
  | DistCtor string
  | TensorVar string
  | Elemwise tensor_op pyval
  | RV string
  | Ref addr

text \<open>
  \<open>PyInt\<close> and \<open>PyFloat\<close> are the instances of \<^verbatim>\<open>numbers.Number\<close>, \<open>Generic\<close> a
  \<^verbatim>\<open>np.generic\<close> scalar, \<open>DistCtor\<close> a distribution constructor of
  \<^verbatim>\<open>pymc3.distributions\<close>, \<open>TensorVar\<close> a symbolic tensor (an estimate, or a prior
  distribution not yet registered), \<open>Elemwise\<close> the symbolic application of a tensor
  operation, \<open>RV\<close> the handle of a registered random variable.
\<close>

type_synonym pydict = "(string \<times> pyval) list"

text \<open>
  A dictionary keeps insertion order; \<open>AList.update\<close> is item assignment (replace in
  place, or append a new key).
\<close>

datatype obj =
    DictObj pydict
  | ArrayObj "real list"
  | ModelObj "(string \<times> pyval) list"

type_synonym heap = "obj list"

datatype error = AttributeError | TypeError | ContextError | Unmodelled

text \<open>
  \<open>ContextError\<close> is the failure of the host's context lookup. \<open>Unmodelled\<close> marks a
  step whose outcome is decided by host-library or interpreter code that is not part of
  this module (calling a distribution constructor in an unexpected position, assigning
  \<^verbatim>\<open>__dict__\<close>, a dangling address); nothing is claimed about such runs.
\<close>

definition lookup :: "heap \<Rightarrow> addr \<Rightarrow> obj option" where
  "lookup h a = (if a < length h then Some (h ! a) else None)"

definition alloc :: "obj \<Rightarrow> heap \<Rightarrow> addr \<times> heap" where
  "alloc ob h = (length h, h @ [ob])"

fun builtin_data :: "pyval \<Rightarrow> bool" where
  "builtin_data PyNone = True"
| "builtin_data (PyInt _) = True"
| "builtin_data (PyFloat _) = True"
| "builtin_data (Str _) = True"
| "builtin_data _ = False"

text \<open>
  Line 71: \<^verbatim>\<open>isinstance(val, (numbers.Number, np.ndarray, np.generic))\<close>.
\<close>

fun is_numeric :: "heap \<Rightarrow> pyval \<Rightarrow> bool" where
  "is_numeric h (PyInt _) = True"
| "is_numeric h (PyFloat _) = True"
| "is_numeric h (Generic _) = True"
| "is_numeric h (Ref a) = (case lookup h a of Some (ArrayObj _) \<Rightarrow> True | _ \<Rightarrow> False)"
| "is_numeric h _ = False"

section \<open>Link functions (lines 33-41)\<close>

text \<open>
  \<^verbatim>\<open>identity = Identity()\<close>, \<^verbatim>\<open>logit = aet.nnet.sigmoid\<close>, \<^verbatim>\<open>inverse = aet.inv\<close>,
  \<^verbatim>\<open>exp = aet.exp\<close>.
\<close>

definition identity :: pyval where
  "identity = Callable IdentityObj"

definition logit :: pyval where
  "logit = Callable (TensorOp Sigmoid)"

definition inverse_link :: pyval where
  "inverse_link = Callable (TensorOp Reciprocal)"

definition exp_link :: pyval where
  "exp_link = Callable (TensorOp Exponential)"

text \<open>
  What a tensor operation accepts as input: tensors, arrays, numpy scalars, floats, and
  the Python integers the tensor library can convert to a constant, those of
  \<open>[-2^63, 2^64)\<close>; on a larger integer the conversion raises.
\<close>

fun tensor_like :: "heap \<Rightarrow> pyval \<Rightarrow> bool" where
  "tensor_like h (TensorVar _) = True"
| "tensor_like h (Elemwise _ v) = tensor_like h v"
| "tensor_like h (RV _) = True"
| "tensor_like h (PyInt i) = (- (2 ^ 63) \<le> i \<and> i < 2 ^ 64)"
| "tensor_like h v = is_numeric h v"

text \<open>
  Calling a value with one positional argument, as \<^verbatim>\<open>self.link(y_est)\<close> does.
  \<^verbatim>\<open>Identity.__call__\<close> returns its argument (line 35). A tensor operation builds the
  symbolic application; on an input that is no tensor its outcome is the library's.
  Anything else of the model is not callable.
\<close>

fun call1 :: "pyval \<Rightarrow> pyval \<Rightarrow> heap \<Rightarrow> error + pyval" where
  "call1 (Callable IdentityObj) x h = Inr x"
| "call1 (Callable (TensorOp f)) x h =
     (if tensor_like h x then Inr (Elemwise f x) else Inl Unmodelled)"
| "call1 (DistCtor _) x h = Inl Unmodelled"
| "call1 _ x h = Inl TypeError"

text \<open>
  Modelled from the spec: the tensor library's \<^verbatim>\<open>sigmoid\<close>, \<^verbatim>\<open>inv\<close> and \<^verbatim>\<open>exp\<close> are
  not under src/; section 4.1 names them the logistic sigmoid, the reciprocal and the
  exponential, elementwise, returning a value of the same shape. \<open>scalar_op\<close> is the
  value of one element over the reals, with the reciprocal undefined at zero.
  \<open>tensor_value\<close> is the list of elements a value stands for: one element for a number,
  the elements of an array, what \<open>env\<close> assigns to a symbolic variable, and the
  operation applied to every element for a symbolic application.
\<close>

fun scalar_op :: "tensor_op \<Rightarrow> real \<Rightarrow> real option" where
  "scalar_op Sigmoid x = Some (1 / (1 + exp (- x)))"
| "scalar_op Reciprocal x = (if x = 0 then None else Some (1 / x))"
| "scalar_op Exponential x = Some (exp x)"

fun tensor_value :: "(pyval \<Rightarrow> real list) \<Rightarrow> heap \<Rightarrow> pyval \<Rightarrow> real list option" where
  "tensor_value env h (PyInt i) = Some [real_of_int i]"
| "tensor_value env h (PyFloat x) = Some [x]"
| "tensor_value env h (Generic x) = Some [x]"
| "tensor_value env h (TensorVar s) = Some (env (TensorVar s))"
| "tensor_value env h (RV s) = Some (env (RV s))"
| "tensor_value env h (Ref a) =
     (case lookup h a of Some (ArrayObj xs) \<Rightarrow> Some xs | _ \<Rightarrow> None)"
| "tensor_value env h (Elemwise f v) =
     (case tensor_value env h v of
        None \<Rightarrow> None
      | Some xs \<Rightarrow> those (map (scalar_op f) xs))"
| "tensor_value env h _ = None"

section \<open>Dictionaries and attribute lookup\<close>

text \<open>
  \<^verbatim>\<open>copy(x)\<close> (line 54): a shallow copy. An immutable value is returned as it is; a
  stored object is duplicated at a fresh address, its entries still referring to the
  same value objects.
\<close>

definition copy :: "pyval \<Rightarrow> heap \<Rightarrow> (error + pyval) \<times> heap" where
  "copy v h =
     (case v of
        Ref a \<Rightarrow>
          (case lookup h a of
             None \<Rightarrow> (Inl Unmodelled, h)
           | Some ob \<Rightarrow> (Inr (Ref (length h)), h @ [ob]))
      | _ \<Rightarrow> (Inr v, h))"

text \<open>
  \<^verbatim>\<open>target.update(val)\<close> (line 55). Only a dictionary has the method; \<^verbatim>\<open>None\<close>,
  numbers, strings and arrays raise AttributeError. The argument is read as a dictionary;
  \<^verbatim>\<open>None\<close> and numbers are not iterable.
\<close>

definition dict_update :: "pyval \<Rightarrow> pyval \<Rightarrow> heap \<Rightarrow> error + heap" where
  "dict_update target val h =
     (case target of
        Ref p \<Rightarrow>
          (case lookup h p of
             Some (DictObj d) \<Rightarrow>
               (case val of
                  Ref b \<Rightarrow>
                    (case lookup h b of
                       Some (DictObj d2) \<Rightarrow>
                         Inr (h[p := DictObj (fold (\<lambda>(k, v). AList.update k v) d2 d)])
                     | _ \<Rightarrow> Inl Unmodelled)
                | PyNone \<Rightarrow> Inl TypeError
                | PyInt _ \<Rightarrow> Inl TypeError
                | PyFloat _ \<Rightarrow> Inl TypeError
                | _ \<Rightarrow> Inl Unmodelled)
           | Some (ArrayObj _) \<Rightarrow> Inl AttributeError
           | _ \<Rightarrow> Inl Unmodelled)
      | _ \<Rightarrow> (if builtin_data target then Inl AttributeError else Inl Unmodelled))"

text \<open>\<^verbatim>\<open>target.items()\<close> (line 70), with the same attribute lookup.\<close>

definition dict_items :: "pyval \<Rightarrow> heap \<Rightarrow> error + pydict" where
  "dict_items target h =
     (case target of
        Ref p \<Rightarrow>
          (case lookup h p of
             Some (DictObj d) \<Rightarrow> Inr d
           | Some (ArrayObj _) \<Rightarrow> Inl AttributeError
           | _ \<Rightarrow> Inl Unmodelled)
      | _ \<Rightarrow> (if builtin_data target then Inl AttributeError else Inl Unmodelled))"

text \<open>\<^verbatim>\<open>d[key] = val\<close> on the dictionary stored at \<open>p\<close>.\<close>

definition dict_setitem :: "addr \<Rightarrow> string \<Rightarrow> pyval \<Rightarrow> heap \<Rightarrow> heap" where
  "dict_setitem p key val h =
     (case lookup h p of
        Some (DictObj d) \<Rightarrow> h[p := DictObj (AList.update key val d)]
      | _ \<Rightarrow> h)"

section \<open>Classes and instances\<close>

record pyclass =
  class_name :: string
  class_dict :: pydict

record pyinstance =
  inst_class :: pyclass
  inst_dict :: pydict

text \<open>
  The objects created when the module is loaded: \<^verbatim>\<open>Family.priors = {}\<close> (line 47) at
  address 0 and \<^verbatim>\<open>Binomial.priors = {"n": 1}\<close> (line 128) at address 1.
\<close>

definition module_heap :: heap where
  "module_heap = [DictObj [], DictObj [(''n'', PyInt 1)]]"

text \<open>The data attributes of the base class (lines 47-48).\<close>

definition Family_dict :: pydict where
  "Family_dict = [(''priors'', Ref 0), (''link'', PyNone)]"

definition Family :: pyclass where
  "Family = \<lparr>class_name = ''Family'', class_dict = []\<rparr>"

definition StudentT :: pyclass where
  "StudentT = \<lparr>class_name = ''StudentT'', class_dict =
     [(''link'', identity), (''likelihood'', DistCtor ''StudentT''),
      (''parent'', Str ''mu''), (''priors'', PyNone)]\<rparr>"

definition Normal :: pyclass where
  "Normal = \<lparr>class_name = ''Normal'', class_dict =
     [(''link'', identity), (''likelihood'', DistCtor ''Normal''),
      (''parent'', Str ''mu''), (''priors'', PyNone)]\<rparr>"

definition Binomial :: pyclass where
  "Binomial = \<lparr>class_name = ''Binomial'', class_dict =
     [(''link'', logit), (''likelihood'', DistCtor ''Binomial''),
      (''parent'', Str ''p''), (''priors'', Ref 1)]\<rparr>"

definition Poisson :: pyclass where
  "Poisson = \<lparr>class_name = ''Poisson'', class_dict =
     [(''link'', exp_link), (''likelihood'', DistCtor ''Poisson''),
      (''parent'', Str ''mu''), (''priors'', PyNone)]\<rparr>"

definition NegativeBinomial :: pyclass where
  "NegativeBinomial = \<lparr>class_name = ''NegativeBinomial'', class_dict =
     [(''link'', exp_link), (''likelihood'', DistCtor ''NegativeBinomial''),
      (''parent'', Str ''mu''), (''priors'', PyNone)]\<rparr>"

text \<open>
  Attribute lookup \<^verbatim>\<open>self.name\<close>: the instance dictionary, then the class, then the
  base class \<^verbatim>\<open>Family\<close>.
\<close>

definition getattr :: "pyinstance \<Rightarrow> string \<Rightarrow> error + pyval" where
  "getattr self name =
     (case map_of (inst_dict self) name of
        Some v \<Rightarrow> Inr v
      | None \<Rightarrow>
          (case map_of (class_dict (inst_class self)) name of
             Some v \<Rightarrow> Inr v
           | None \<Rightarrow>
               (case map_of Family_dict name of
                  Some v \<Rightarrow> Inr v
                | None \<Rightarrow> Inl AttributeError)))"

text \<open>
  \<^verbatim>\<open>setattr(self, key, val)\<close> (line 57). The interpreter keeps three names for
  itself: \<^verbatim>\<open>__class__\<close> accepts only a class, \<^verbatim>\<open>__dict__\<close> only a dictionary (which
  would then replace the instance dictionary), \<^verbatim>\<open>__weakref__\<close> is read-only. Every other
  name is stored in the instance dictionary.
\<close>

definition managed_name :: "string \<Rightarrow> bool" where
  "managed_name key \<longleftrightarrow> key = ''__class__'' \<or> key = ''__dict__'' \<or> key = ''__weakref__''"

definition setattr :: "pyinstance \<Rightarrow> string \<Rightarrow> pyval \<Rightarrow> error + pyinstance" where
  "setattr self key val =
     (if key = ''__class__'' then
        (case val of DistCtor _ \<Rightarrow> Inl Unmodelled | _ \<Rightarrow> Inl TypeError)
      else if key = ''__dict__'' then
        (case val of Ref _ \<Rightarrow> Inl Unmodelled | _ \<Rightarrow> Inl TypeError)
      else if key = ''__weakref__'' then Inl AttributeError
      else Inr (self\<lparr>inst_dict := AList.update key val (inst_dict self)\<rparr>))"

section \<open>\<^verbatim>\<open>Family.__init__\<close> (lines 50-57)\<close>

text \<open>The loop over \<^verbatim>\<open>kwargs.items()\<close>, in the order the keywords were given.\<close>

fun init_loop :: "pyinstance \<Rightarrow> pydict \<Rightarrow> heap \<Rightarrow> (error + pyinstance) \<times> heap" where
  "init_loop self [] h = (Inr self, h)"
| "init_loop self ((key, val) # rest) h =
     (if key = ''priors'' then
        (case getattr self ''priors'' of
           Inl e \<Rightarrow> (Inl e, h)
         | Inr base \<Rightarrow>
             (case copy base h of
                (Inl e, h1) \<Rightarrow> (Inl e, h1)
              | (Inr c, h1) \<Rightarrow>
                  (case setattr self ''priors'' c of
                     Inl e \<Rightarrow> (Inl e, h1)
                   | Inr self1 \<Rightarrow>
                       (case getattr self1 ''priors'' of
                          Inl e \<Rightarrow> (Inl e, h1)
                        | Inr target \<Rightarrow>
                            (case dict_update target val h1 of
                               Inl e \<Rightarrow> (Inl e, h1)
                             | Inr h2 \<Rightarrow> init_loop self1 rest h2)))))
      else
        (case setattr self key val of
           Inl e \<Rightarrow> (Inl e, h)
         | Inr self1 \<Rightarrow> init_loop self1 rest h))"

text \<open>
  \<^verbatim>\<open>cls(**kwargs)\<close>: a new instance with an empty dictionary, then \<^verbatim>\<open>__init__\<close>. The
  instance is bound to the parameter \<^verbatim>\<open>self\<close> of line 50, so a keyword of that name is a
  second value for it: the call raises TypeError before the body runs.
\<close>

definition init :: "pyclass \<Rightarrow> pydict \<Rightarrow> heap \<Rightarrow> (error + pyinstance) \<times> heap" where
  "init cls kwargs h =
     (if ''self'' \<in> fst ` set kwargs then (Inl TypeError, h)
      else init_loop \<lparr>inst_class = cls, inst_dict = []\<rparr> kwargs h)"

section \<open>\<^verbatim>\<open>Family._get_priors\<close> (lines 59-76)\<close>

text \<open>Lines 66-67 and 91-92: \<^verbatim>\<open>if name: name = f"{name}_"\<close>.\<close>

definition name_prefix :: "string \<Rightarrow> string" where
  "name_prefix name = (if name = [] then [] else name @ ''_'')"

text \<open>
  Modelled from the spec: \<^verbatim>\<open>pymc3.model.modelcontext\<close> is not under src/. Section 4.2:
  "Requires an active or explicitly supplied model context; fails if none is available".
  \<open>amb\<close> is the model on top of the context stack, if there is one.
\<close>

definition modelcontext :: "pyval \<Rightarrow> addr option \<Rightarrow> error + pyval" where
  "modelcontext model amb =
     (case model of
        PyNone \<Rightarrow> (case amb of None \<Rightarrow> Inl ContextError | Some m \<Rightarrow> Inr (Ref m))
      | _ \<Rightarrow> Inr model)"

text \<open>
  Modelled from the spec: \<^verbatim>\<open>Model.register_rv\<close> is not under src/. Section 4.2:
  "register it as a named random variable in the given model context"; the method
  returns the handle of the variable. A value that is no model has no such method.
\<close>

definition register_rv :: "pyval \<Rightarrow> pyval \<Rightarrow> string \<Rightarrow> heap \<Rightarrow> (error + pyval) \<times> heap" where
  "register_rv model val name h =
     (case model of
        Ref m \<Rightarrow>
          (case lookup h m of
             Some (ModelObj vars) \<Rightarrow> (Inr (RV name), h[m := ModelObj (vars @ [(name, val)])])
           | Some _ \<Rightarrow> (Inl AttributeError, h)
           | None \<Rightarrow> (Inl Unmodelled, h))
      | _ \<Rightarrow> (Inl AttributeError, h))"

text \<open>The loop of lines 70-74, filling the dictionary allocated at \<open>p\<close>.\<close>

fun priors_loop ::
  "pyval \<Rightarrow> string \<Rightarrow> addr \<Rightarrow> pydict \<Rightarrow> heap \<Rightarrow> (error + unit) \<times> heap" where
  "priors_loop model pre p [] h = (Inr (), h)"
| "priors_loop model pre p ((key, val) # rest) h =
     (if is_numeric h val then priors_loop model pre p rest (dict_setitem p key val h)
      else
        (case register_rv model val (pre @ key) h of
           (Inl e, h1) \<Rightarrow> (Inl e, h1)
         | (Inr rv, h1) \<Rightarrow> priors_loop model pre p rest (dict_setitem p key rv h1)))"

definition get_priors ::
  "pyinstance \<Rightarrow> pyval \<Rightarrow> string \<Rightarrow> addr option \<Rightarrow> heap \<Rightarrow> (error + pyval) \<times> heap" where
  "get_priors self model name amb h =
     (case modelcontext model amb of
        Inl e \<Rightarrow> (Inl e, h)
      | Inr mdl \<Rightarrow>
          (let (p, h1) = alloc (DictObj []) h in
           case getattr self ''priors'' of
             Inl e \<Rightarrow> (Inl e, h1)
           | Inr stored \<Rightarrow>
               (case dict_items stored h1 of
                  Inl e \<Rightarrow> (Inl e, h1)
                | Inr items \<Rightarrow>
                    (case priors_loop mdl (name_prefix name) p items h1 of
                       (Inl e, h2) \<Rightarrow> (Inl e, h2)
                     | (Inr _, h2) \<Rightarrow> (Inr (Ref p), h2)))))"

section \<open>\<^verbatim>\<open>Family.create_likelihood\<close> (lines 78-93)\<close>

text \<open>
  The call \<^verbatim>\<open>self.likelihood(f"{name}y", observed=y_data, **priors)\<close> leaves this
  module; \<open>create_likelihood\<close> returns whatever the constructor returns. The model returns
  the call itself: the constructor, the node name, the observed data and the remaining
  keyword parameters.
\<close>

record likelihood_call =
  ctor :: string
  node_name :: string
  observed :: pyval
  params :: pydict

text \<open>
  \<^verbatim>\<open>self._get_priors(model=model, name=name)\<close> (line 88) is an attribute lookup too: an
  instance attribute of that name, set through a keyword override, shadows the method.
  \<^verbatim>\<open>Identity.__call__\<close> does not accept the keywords \<^verbatim>\<open>model\<close> and \<^verbatim>\<open>name\<close>, and
  plain data is not callable; what a library callable does with them is the library's.
\<close>

definition call_get_priors ::
  "pyinstance \<Rightarrow> pyval \<Rightarrow> string \<Rightarrow> addr option \<Rightarrow> heap \<Rightarrow> (error + pyval) \<times> heap" where
  "call_get_priors self model name amb h =
     (case map_of (inst_dict self) ''_get_priors'' of
        None \<Rightarrow> get_priors self model name amb h
      | Some (DistCtor _) \<Rightarrow> (Inl Unmodelled, h)
      | Some (Callable (TensorOp _)) \<Rightarrow> (Inl Unmodelled, h)
      | Some _ \<Rightarrow> (Inl TypeError, h))"

text \<open>A dictionary or an array cannot be a dictionary key.\<close>

fun unhashable :: "heap \<Rightarrow> pyval \<Rightarrow> bool" where
  "unhashable h (Ref a) =
     (case lookup h a of Some (DictObj _) \<Rightarrow> True | Some (ArrayObj _) \<Rightarrow> True | _ \<Rightarrow> False)"
| "unhashable h _ = False"

text \<open>
  The call of line 93. The keyword \<^verbatim>\<open>observed\<close> may not be given twice; only a
  distribution constructor takes these arguments.
\<close>

definition call_likelihood ::
  "pyval \<Rightarrow> string \<Rightarrow> pyval \<Rightarrow> pydict \<Rightarrow> error + likelihood_call" where
  "call_likelihood lik nm y_data kw =
     (if ''observed'' \<in> fst ` set kw then Inl TypeError
      else
        (case lik of
           DistCtor c \<Rightarrow> Inr \<lparr>ctor = c, node_name = nm, observed = y_data, params = kw\<rparr>
         | Callable (TensorOp _) \<Rightarrow> Inl Unmodelled
         | _ \<Rightarrow> Inl TypeError))"

definition create_likelihood ::
  "pyinstance \<Rightarrow> string \<Rightarrow> pyval \<Rightarrow> pyval \<Rightarrow> pyval \<Rightarrow> addr option \<Rightarrow> heap
     \<Rightarrow> (error + likelihood_call) \<times> heap" where
  "create_likelihood self name y_est y_data model amb h =
     (case call_get_priors self model name amb h of
        (Inl e, h1) \<Rightarrow> (Inl e, h1)
      | (Inr resolved, h1) \<Rightarrow>
          (case getattr self ''link'' of
             Inl e \<Rightarrow> (Inl e, h1)
           | Inr lnk \<Rightarrow>
               (case call1 lnk y_est h1 of
                  Inl e \<Rightarrow> (Inl e, h1)
                | Inr linked \<Rightarrow>
                    (case getattr self ''parent'' of
                       Inl e \<Rightarrow> (Inl e, h1)
                     | Inr (Str par) \<Rightarrow>
                         (case resolved of
                            Ref p \<Rightarrow>
                              (let h2 = dict_setitem p par linked h1 in
                               case getattr self ''likelihood'' of
                                 Inl e \<Rightarrow> (Inl e, h2)
                               | Inr lik \<Rightarrow>
                                   (case dict_items resolved h2 of
                                      Inl e \<Rightarrow> (Inl e, h2)
                                    | Inr kw \<Rightarrow>
                                        (call_likelihood lik (name_prefix name @ ''y'') y_data kw,
                                         h2)))
                          | _ \<Rightarrow> (Inl Unmodelled, h1))
                     | Inr other \<Rightarrow>
                         (if unhashable h1 other then (Inl TypeError, h1)
                          else
                            (case getattr self ''likelihood'' of
                               Inl e \<Rightarrow> (Inl e, h1)
                             | Inr _ \<Rightarrow> (Inl TypeError, h1)))))))"

section \<open>Reading the store\<close>

text \<open>The dictionary a value refers to, and the mapping stored as \<^verbatim>\<open>self.priors\<close>.\<close>

definition deref_dict :: "heap \<Rightarrow> pyval \<Rightarrow> pydict option" where
  "deref_dict h v =
     (case v of
        Ref a \<Rightarrow> (case lookup h a of Some (DictObj d) \<Rightarrow> Some d | _ \<Rightarrow> None)
      | _ \<Rightarrow> None)"

definition stored_priors :: "pyinstance \<Rightarrow> heap \<Rightarrow> pydict option" where
  "stored_priors self h =
     (case getattr self ''priors'' of Inr v \<Rightarrow> deref_dict h v | Inl _ \<Rightarrow> None)"

text \<open>
  What the loop of lines 70-74 computes from the entries of \<^verbatim>\<open>self.priors\<close>: the
  entries of the returned dictionary, and the variables handed to the model, in order.
\<close>

definition resolved_items :: "string \<Rightarrow> heap \<Rightarrow> pydict \<Rightarrow> pydict" where
  "resolved_items pre h items =
     map (\<lambda>(k, v). (k, if is_numeric h v then v else RV (pre @ k))) items"

definition registrations :: "string \<Rightarrow> heap \<Rightarrow> pydict \<Rightarrow> (string \<times> pyval) list" where
  "registrations pre h items =
     map (\<lambda>(k, v). (pre @ k, v)) (filter (\<lambda>(k, v). \<not> is_numeric h v) items)"

text \<open>
  The stored objects that the values of two mappings have in common: what a shallow copy
  shares with its original, and a deep copy would not.
\<close>

fun refs_of :: "pydict \<Rightarrow> addr list" where
  "refs_of [] = []"
| "refs_of ((k, Ref a) # d) = a # refs_of d"
| "refs_of (_ # d) = refs_of d"

definition shared_objects :: "pydict \<Rightarrow> pydict \<Rightarrow> addr list" where
  "shared_objects d1 d2 = filter (\<lambda>a. a \<in> set (refs_of d2)) (refs_of d1)"

definition no_shared_state :: "pydict \<Rightarrow> pydict \<Rightarrow> bool" where
  "no_shared_state d1 d2 \<longleftrightarrow> shared_objects d1 d2 = []"

section \<open>A worked example\<close>

text \<open>
  \<^verbatim>\<open>Binomial(priors={"p": 0.3, "sd": HalfCauchy})\<close> built in a store that holds the module's
  objects, the override dictionary (address 2) and a model with one variable (address 3).
\<close>

definition demo_heap :: heap where
  "demo_heap = module_heap @
     [DictObj [(''p'', PyFloat 0.3), (''sd'', TensorVar ''HalfCauchy'')],
      ModelObj [(''x'', TensorVar ''Normal'')]]"

definition demo_family :: pyinstance where
  "demo_family = \<lparr>inst_class = Binomial, inst_dict = [(''priors'', Ref 4)]\<rparr>"

definition demo_heap2 :: heap where
  "demo_heap2 = demo_heap @
     [DictObj [(''n'', PyInt 1), (''p'', PyFloat 0.3), (''sd'', TensorVar ''HalfCauchy'')]]"

text \<open>\<^verbatim>\<open>Binomial()\<close>: no instance attribute is set.\<close>

definition default_binomial :: pyinstance where
  "default_binomial = \<lparr>inst_class = Binomial, inst_dict = []\<rparr>"

text \<open>The store of the scenario \<^verbatim>\<open>Binomial(priors={"n": 5})\<close>, and a list of overrides.\<close>

definition scenario_heap :: heap where
  "scenario_heap = module_heap @ [DictObj [(''n'', PyInt 5)], ModelObj []]"

definition override_kwargs :: pydict where
  "override_kwargs = [(''link'', identity), (''priors'', Ref 2), (''parent'', PyInt 7)]"

text \<open>
  A subclass whose class-level priors hold an array: \<^verbatim>\<open>priors = {"w": np.array([1., 2.])}\<close>
  (the mapping at address 2, the array at address 3), and the override
  \<^verbatim>\<open>{"extra": 5}\<close> at address 4.
\<close>

definition array_family :: pyclass where
  "array_family = \<lparr>class_name = ''ArrayFamily'', class_dict =
     [(''link'', identity), (''likelihood'', DistCtor ''Normal''),
      (''parent'', Str ''mu''), (''priors'', Ref 2)]\<rparr>"

definition array_heap :: heap where
  "array_heap = module_heap @
     [DictObj [(''w'', Ref 3)], ArrayObj [1, 2], DictObj [(''extra'', PyInt 5)]]"

section \<open>The store under the loop of \<^verbatim>\<open>_get_priors\<close>\<close>

lemma lookup_append:
  "lookup (h @ [ob]) a = (if a = length h then Some ob else lookup h a)"
  by (auto simp: lookup_def nth_append)

lemma lookup_list_update:
  "lookup (h[p := ob]) a = (if a = p \<and> p < length h then Some ob else lookup h a)"
  by (auto simp: lookup_def)

lemma is_numeric_cong:
  assumes "\<And>a. (\<exists>xs. lookup h' a = Some (ArrayObj xs)) = (\<exists>xs. lookup h a = Some (ArrayObj xs))"
  shows "is_numeric h' x = is_numeric h x"
proof (cases x)
  case (Ref a)
  from assms[of a] show ?thesis
    by (auto simp: Ref split: option.splits obj.splits)
qed simp_all

lemma is_numeric_setitem: "is_numeric (dict_setitem p k v h) x = is_numeric h x"
  by (rule is_numeric_cong)
     (auto simp: dict_setitem_def lookup_list_update split: option.splits obj.splits if_splits)

lemma is_numeric_register:
  "register_rv mdl v n h = (r, h') \<Longrightarrow> is_numeric h' x = is_numeric h x"
  by (rule is_numeric_cong)
     (auto simp: register_rv_def lookup_list_update
           split: pyval.splits option.splits obj.splits if_splits)

lemma is_numeric_append_dict: "is_numeric (h @ [DictObj d]) x = is_numeric h x"
  by (rule is_numeric_cong) (auto simp: lookup_def nth_append split: if_splits)

lemma resolved_items_simps:
  "resolved_items pre h [] = []"
  "resolved_items pre h ((k, v) # items) =
     (k, if is_numeric h v then v else RV (pre @ k)) # resolved_items pre h items"
  by (simp_all add: resolved_items_def)

lemma registrations_simps:
  "registrations pre h [] = []"
  "registrations pre h ((k, v) # items) =
     (if is_numeric h v then registrations pre h items
      else (pre @ k, v) # registrations pre h items)"
  by (simp_all add: registrations_def)

lemma resolved_items_cong:
  "(\<And>x. is_numeric g x = is_numeric h x) \<Longrightarrow> resolved_items pre g items = resolved_items pre h items"
  by (simp add: resolved_items_def)

lemma registrations_cong:
  "(\<And>x. is_numeric g x = is_numeric h x) \<Longrightarrow> registrations pre g items = registrations pre h items"
  by (simp add: registrations_def)

lemma priors_loop_invariant:
  assumes run: "priors_loop mdl pre p items h = (r, h')"
    and init: "P h"
    and setitem: "\<And>g k v. P g \<Longrightarrow> P (dict_setitem p k v g)"
    and register: "\<And>g v n rr g1. P g \<Longrightarrow> register_rv mdl v n g = (rr, g1) \<Longrightarrow> P g1"
  shows "P h'"
  using run init
proof (induction items arbitrary: h)
  case Nil
  then show ?case by simp
next
  case (Cons kv items)
  obtain k v where kv: "kv = (k, v)" by (cases kv)
  show ?case
  proof (cases "is_numeric h v")
    case True
    with Cons.prems kv have "priors_loop mdl pre p items (dict_setitem p k v h) = (r, h')"
      by simp
    then show ?thesis
      using Cons.IH Cons.prems(2) setitem by blast
  next
    case False
    obtain rr h1 where reg: "register_rv mdl v (pre @ k) h = (rr, h1)"
      by (cases "register_rv mdl v (pre @ k) h")
    have P1: "P h1" using register[OF Cons.prems(2) reg] .
    show ?thesis
    proof (cases rr)
      case (Inl e)
      with Cons.prems kv False reg have "h' = h1" by simp
      with P1 show ?thesis by simp
    next
      case (Inr rv)
      with Cons.prems kv False reg
      have "priors_loop mdl pre p items (dict_setitem p k rv h1) = (r, h')" by simp
      then show ?thesis
        using Cons.IH P1 setitem by blast
    qed
  qed
qed

lemma priors_loop_is_numeric:
  assumes "priors_loop mdl pre p items h = (r, h')"
  shows "is_numeric h' x = is_numeric h x"
  by (rule priors_loop_invariant[OF assms, where P = "\<lambda>g. is_numeric g x = is_numeric h x"])
     (simp_all add: is_numeric_setitem is_numeric_register)

text \<open>Every dictionary other than the one being filled, and every array, is untouched.\<close>

lemma priors_loop_frame:
  assumes run: "priors_loop mdl pre p items h = (r, h')"
    and other: "a \<noteq> p"
    and ob: "lookup h a = Some ob" "ob = DictObj d \<or> ob = ArrayObj xs"
  shows "lookup h' a = Some ob"
proof (rule priors_loop_invariant[OF run, where P = "\<lambda>g. lookup g a = Some ob"])
  show "lookup h a = Some ob" by (rule ob)
next
  fix g k v
  assume "lookup g a = Some ob"
  with other show "lookup (dict_setitem p k v g) a = Some ob"
    by (auto simp: dict_setitem_def lookup_list_update split: option.splits obj.splits)
next
  fix g v n rr g1
  assume "lookup g a = Some ob" and "register_rv mdl v n g = (rr, g1)"
  with ob(2) show "lookup g1 a = Some ob"
    by (auto simp: register_rv_def lookup_list_update
             split: pyval.splits option.splits obj.splits if_splits)
qed

lemma lookup_setitem_same:
  "lookup h p = Some (DictObj d) \<Longrightarrow>
   lookup (dict_setitem p k v h) p = Some (DictObj (AList.update k v d))"
  by (auto simp: dict_setitem_def lookup_list_update lookup_def split: if_splits)

lemma lookup_register_dict:
  "register_rv mdl v n h = (r, h1) \<Longrightarrow> lookup h p = Some (DictObj d) \<Longrightarrow>
   lookup h1 p = Some (DictObj d)"
  by (auto simp: register_rv_def lookup_list_update
           split: pyval.splits option.splits obj.splits if_splits)

lemma priors_loop_dict:
  assumes "priors_loop mdl pre p items h = (Inr u, h')" "lookup h p = Some (DictObj acc)"
  shows "lookup h' p =
    Some (DictObj (fold (\<lambda>(k, v). AList.update k v) (resolved_items pre h items) acc))"
  using assms
proof (induction items arbitrary: h acc)
  case Nil
  then show ?case by (simp add: resolved_items_simps)
next
  case (Cons kv items)
  obtain k v where kv: "kv = (k, v)" by (cases kv)
  show ?case
  proof (cases "is_numeric h v")
    case True
    let ?g = "dict_setitem p k v h"
    from Cons.prems kv True have run: "priors_loop mdl pre p items ?g = (Inr u, h')" by simp
    have "lookup ?g p = Some (DictObj (AList.update k v acc))"
      using Cons.prems(2) by (rule lookup_setitem_same)
    from Cons.IH[OF run this] have
      "lookup h' p = Some (DictObj (fold (\<lambda>(k, v). AList.update k v)
          (resolved_items pre ?g items) (AList.update k v acc)))" .
    moreover have "resolved_items pre ?g items = resolved_items pre h items"
      by (rule resolved_items_cong) (simp add: is_numeric_setitem)
    ultimately show ?thesis using True kv by (simp add: resolved_items_simps)
  next
    case False
    obtain rr h1 where reg: "register_rv mdl v (pre @ k) h = (rr, h1)"
      by (cases "register_rv mdl v (pre @ k) h")
    from Cons.prems kv False reg obtain rv where rr: "rr = Inr rv"
      by (cases rr) auto
    from reg rr have rv: "rv = RV (pre @ k)"
      by (auto simp: register_rv_def split: pyval.splits option.splits obj.splits)
    let ?g = "dict_setitem p k rv h1"
    from Cons.prems kv False reg rr
    have run: "priors_loop mdl pre p items ?g = (Inr u, h')" by simp
    have "lookup h1 p = Some (DictObj acc)"
      using reg Cons.prems(2) by (rule lookup_register_dict)
    then have "lookup ?g p = Some (DictObj (AList.update k rv acc))"
      by (rule lookup_setitem_same)
    from Cons.IH[OF run this] have
      "lookup h' p = Some (DictObj (fold (\<lambda>(k, v). AList.update k v)
          (resolved_items pre ?g items) (AList.update k rv acc)))" .
    moreover have "resolved_items pre ?g items = resolved_items pre h items"
      by (rule resolved_items_cong) (simp add: is_numeric_setitem is_numeric_register[OF reg])
    ultimately show ?thesis using False kv rv by (simp add: resolved_items_simps)
  qed
qed

lemma lookup_setitem_model:
  "lookup h m = Some (ModelObj vars) \<Longrightarrow> lookup (dict_setitem p k v h) m = Some (ModelObj vars)"
  by (auto simp: dict_setitem_def lookup_list_update split: option.splits obj.splits if_splits)

lemma priors_loop_model:
  assumes "priors_loop (Ref m) pre p items h = (Inr u, h')" "lookup h m = Some (ModelObj vars)"
  shows "lookup h' m = Some (ModelObj (vars @ registrations pre h items))"
  using assms
proof (induction items arbitrary: h vars)
  case Nil
  then show ?case by (simp add: registrations_simps)
next
  case (Cons kv items)
  obtain k v where kv: "kv = (k, v)" by (cases kv)
  show ?case
  proof (cases "is_numeric h v")
    case True
    let ?g = "dict_setitem p k v h"
    from Cons.prems kv True have run: "priors_loop (Ref m) pre p items ?g = (Inr u, h')" by simp
    have "lookup ?g m = Some (ModelObj vars)"
      using Cons.prems(2) by (rule lookup_setitem_model)
    from Cons.IH[OF run this]
    have "lookup h' m = Some (ModelObj (vars @ registrations pre ?g items))" .
    moreover have "registrations pre ?g items = registrations pre h items"
      by (rule registrations_cong) (simp add: is_numeric_setitem)
    ultimately show ?thesis using True kv by (simp add: registrations_simps)
  next
    case False
    let ?h1 = "h[m := ModelObj (vars @ [(pre @ k, v)])]"
    have reg: "register_rv (Ref m) v (pre @ k) h = (Inr (RV (pre @ k)), ?h1)"
      using Cons.prems(2) by (simp add: register_rv_def)
    let ?g = "dict_setitem p k (RV (pre @ k)) ?h1"
    from Cons.prems kv False reg
    have run: "priors_loop (Ref m) pre p items ?g = (Inr u, h')" by simp
    have "lookup ?h1 m = Some (ModelObj (vars @ [(pre @ k, v)]))"
      using Cons.prems(2) by (auto simp: lookup_list_update lookup_def split: if_splits)
    then have "lookup ?g m = Some (ModelObj (vars @ [(pre @ k, v)]))"
      by (rule lookup_setitem_model)
    from Cons.IH[OF run this]
    have "lookup h' m = Some (ModelObj ((vars @ [(pre @ k, v)]) @ registrations pre ?g items))" .
    moreover have "registrations pre ?g items = registrations pre h items"
      by (rule registrations_cong) (simp add: is_numeric_setitem is_numeric_register[OF reg])
    ultimately show ?thesis using False kv by (simp add: registrations_simps)
  qed
qed

text \<open>A successful run that met a non-numeric entry had a model to register it in.\<close>

lemma priors_loop_needs_model:
  assumes "priors_loop mdl pre p items h = (Inr u, h')" "(k, v) \<in> set items" "\<not> is_numeric h v"
  shows "\<exists>m vars. mdl = Ref m \<and> lookup h m = Some (ModelObj vars)"
  using assms
proof (induction items arbitrary: h)
  case Nil
  then show ?case by simp
next
  case (Cons kv items)
  obtain k1 v1 where kv: "kv = (k1, v1)" by (cases kv)
  show ?case
  proof (cases "is_numeric h v1")
    case True
    let ?g = "dict_setitem p k1 v1 h"
    from Cons.prems kv True have run: "priors_loop mdl pre p items ?g = (Inr u, h')" by simp
    from Cons.prems(2,3) kv True have mem: "(k, v) \<in> set items" by auto
    have "\<not> is_numeric ?g v" using Cons.prems(3) by (simp add: is_numeric_setitem)
    from Cons.IH[OF run mem this] obtain m vars where
      "mdl = Ref m" "lookup ?g m = Some (ModelObj vars)" by blast
    then show ?thesis
      by (auto simp: dict_setitem_def lookup_list_update split: option.splits obj.splits if_splits)
  next
    case False
    obtain rr h1 where reg: "register_rv mdl v1 (pre @ k1) h = (rr, h1)"
      by (cases "register_rv mdl v1 (pre @ k1) h")
    from Cons.prems kv False reg obtain rv where rr: "rr = Inr rv"
      by (cases rr) auto
    from reg rr show ?thesis
      by (auto simp: register_rv_def split: pyval.splits option.splits obj.splits)
  qed
qed

text \<open>With a model at hand the loop cannot fail.\<close>

lemma priors_loop_total:
  assumes "lookup h m = Some (ModelObj vars)"
  shows "\<exists>h'. priors_loop (Ref m) pre p items h = (Inr (), h')"
  using assms
proof (induction items arbitrary: h vars)
  case Nil
  then show ?case by simp
next
  case (Cons kv items)
  obtain k v where kv: "kv = (k, v)" by (cases kv)
  show ?case
  proof (cases "is_numeric h v")
    case True
    have "lookup (dict_setitem p k v h) m = Some (ModelObj vars)"
      using Cons.prems by (rule lookup_setitem_model)
    from Cons.IH[OF this] show ?thesis using True kv by simp
  next
    case False
    let ?h1 = "h[m := ModelObj (vars @ [(pre @ k, v)])]"
    have reg: "register_rv (Ref m) v (pre @ k) h = (Inr (RV (pre @ k)), ?h1)"
      using Cons.prems by (simp add: register_rv_def)
    have "lookup ?h1 m = Some (ModelObj (vars @ [(pre @ k, v)]))"
      using Cons.prems by (auto simp: lookup_list_update lookup_def split: if_splits)
    then have "lookup (dict_setitem p k (RV (pre @ k)) ?h1) m = Some (ModelObj (vars @ [(pre @ k, v)]))"
      by (rule lookup_setitem_model)
    from Cons.IH[OF this] show ?thesis using False kv reg by simp
  qed
qed

text \<open>When every entry is numeric no model is needed.\<close>

lemma priors_loop_all_numeric:
  assumes "\<forall>(k, v) \<in> set items. is_numeric h v"
  shows "\<exists>h'. priors_loop mdl pre p items h = (Inr (), h')"
  using assms
proof (induction items arbitrary: h)
  case Nil
  then show ?case by simp
next
  case (Cons kv items)
  obtain k v where kv: "kv = (k, v)" by (cases kv)
  from Cons.prems kv have num: "is_numeric h v" by simp
  have "\<forall>(k', v') \<in> set items. is_numeric (dict_setitem p k v h) v'"
    using Cons.prems by (auto simp: is_numeric_setitem)
  from Cons.IH[OF this] show ?case using num kv by simp
qed

lemma fold_update_distinct:
  "distinct (map fst (acc @ xs)) \<Longrightarrow> fold (\<lambda>(k, v). AList.update k v) xs acc = acc @ xs"
proof (induction xs arbitrary: acc)
  case Nil then show ?case by simp
next
  case (Cons kv xs)
  obtain k v where kv: "kv = (k, v)" by (cases kv)
  from Cons.prems kv have "k \<notin> fst ` set acc" by auto
  then have upd: "AList.update k v acc = acc @ [(k, v)]"
    by (induction acc) auto
  from Cons.prems kv have "distinct (map fst ((acc @ [(k, v)]) @ xs))" by simp
  from Cons.IH[OF this] show ?case using kv upd by simp
qed

section \<open>\<^verbatim>\<open>_get_priors\<close> and \<^verbatim>\<open>create_likelihood\<close> on the store\<close>

lemma stored_priorsD:
  "stored_priors self h = Some d \<Longrightarrow>
   \<exists>a. getattr self ''priors'' = Inr (Ref a) \<and> a < length h \<and> lookup h a = Some (DictObj d)"
  by (auto simp: stored_priors_def deref_dict_def lookup_def
           split: sum.splits pyval.splits option.splits obj.splits if_splits)

lemma get_priors_Inr:
  assumes run: "get_priors self model name amb h = (Inr r, h')"
    and stored: "stored_priors self h = Some d"
  shows "\<exists>mdl u. modelcontext model amb = Inr mdl \<and> r = Ref (length h) \<and>
           priors_loop mdl (name_prefix name) (length h) d (h @ [DictObj []]) = (Inr u, h')"
proof -
  from stored_priorsD[OF stored] obtain a where
    a: "getattr self ''priors'' = Inr (Ref a)" "a < length h" "lookup h a = Some (DictObj d)"
    by blast
  from a(2,3) have items: "dict_items (Ref a) (h @ [DictObj []]) = Inr d"
    by (auto simp: dict_items_def lookup_def nth_append)
  from run obtain mdl where mdl: "modelcontext model amb = Inr mdl"
    by (cases "modelcontext model amb") (auto simp: get_priors_def)
  from run mdl a(1) items show ?thesis
    by (auto simp: get_priors_def alloc_def split: prod.splits sum.splits)
qed

lemma get_priors_result:
  assumes run: "get_priors self model name amb h = (Inr r, h')"
    and stored: "stored_priors self h = Some d"
  shows "deref_dict h' r =
      Some (fold (\<lambda>(k, v). AList.update k v) (resolved_items (name_prefix name) h d) [])"
proof -
  from get_priors_Inr[OF run stored] obtain mdl u where
    r: "r = Ref (length h)" and
    loop: "priors_loop mdl (name_prefix name) (length h) d (h @ [DictObj []]) = (Inr u, h')"
    by blast
  have "lookup (h @ [DictObj []]) (length h) = Some (DictObj [])"
    by (simp add: lookup_append)
  from priors_loop_dict[OF loop this]
  have "lookup h' (length h) = Some (DictObj (fold (\<lambda>(k, v). AList.update k v)
          (resolved_items (name_prefix name) (h @ [DictObj []]) d) []))" .
  moreover have "resolved_items (name_prefix name) (h @ [DictObj []]) d
      = resolved_items (name_prefix name) h d"
    by (rule resolved_items_cong) (simp add: is_numeric_append_dict)
  ultimately show ?thesis using r by (simp add: deref_dict_def)
qed

lemma get_priors_model:
  assumes run: "get_priors self model name amb h = (Inr r, h')"
    and stored: "stored_priors self h = Some d"
    and mdl: "modelcontext model amb = Inr (Ref m)" "lookup h m = Some (ModelObj vars)"
  shows "lookup h' m = Some (ModelObj (vars @ registrations (name_prefix name) h d))"
proof -
  from get_priors_Inr[OF run stored] mdl(1) obtain u where
    loop: "priors_loop (Ref m) (name_prefix name) (length h) d (h @ [DictObj []]) = (Inr u, h')"
    by auto
  from mdl(2) have "lookup (h @ [DictObj []]) m = Some (ModelObj vars)"
    by (auto simp: lookup_def nth_append split: if_splits)
  from priors_loop_model[OF loop this]
  have "lookup h' m =
      Some (ModelObj (vars @ registrations (name_prefix name) (h @ [DictObj []]) d))" .
  moreover have "registrations (name_prefix name) (h @ [DictObj []]) d
      = registrations (name_prefix name) h d"
    by (rule registrations_cong) (simp add: is_numeric_append_dict)
  ultimately show ?thesis by simp
qed

lemma get_priors_needs_model:
  assumes run: "get_priors self model name amb h = (Inr r, h')"
    and stored: "stored_priors self h = Some d"
    and entry: "(k, v) \<in> set d" "\<not> is_numeric h v"
  shows "\<exists>m vars. modelcontext model amb = Inr (Ref m) \<and> lookup h m = Some (ModelObj vars)"
proof -
  from get_priors_Inr[OF run stored] obtain mdl u where
    mdl: "modelcontext model amb = Inr mdl" and
    loop: "priors_loop mdl (name_prefix name) (length h) d (h @ [DictObj []]) = (Inr u, h')"
    by blast
  from entry(2) have "\<not> is_numeric (h @ [DictObj []]) v"
    by (simp add: is_numeric_append_dict)
  from priors_loop_needs_model[OF loop entry(1) this] obtain m vars where
    m: "mdl = Ref m" "lookup (h @ [DictObj []]) m = Some (ModelObj vars)" by blast
  from m(2) have "lookup h m = Some (ModelObj vars)"
    by (auto simp: lookup_def nth_append split: if_splits)
  with mdl m(1) show ?thesis by blast
qed

text \<open>
  \<open>get_priors\<close> returns whenever the stored priors are a dictionary and either the
  resolved context is a model or no entry needs one.
\<close>

lemma get_priors_returns:
  assumes stored: "stored_priors self h = Some d"
    and ctx: "modelcontext model amb = Inr mdl"
    and ok: "(\<exists>m vars. mdl = Ref m \<and> lookup h m = Some (ModelObj vars)) \<or>
             (\<forall>(k, v) \<in> set d. is_numeric h v)"
  shows "\<exists>h'. get_priors self model name amb h = (Inr (Ref (length h)), h')"
proof -
  let ?h1 = "h @ [DictObj []]"
  from stored_priorsD[OF stored] obtain a where
    a: "getattr self ''priors'' = Inr (Ref a)" "a < length h" "lookup h a = Some (DictObj d)"
    by blast
  from a(2,3) have items: "dict_items (Ref a) ?h1 = Inr d"
    by (auto simp: dict_items_def lookup_def nth_append)
  have "\<exists>h'. priors_loop mdl (name_prefix name) (length h) d ?h1 = (Inr (), h')"
    using ok
  proof
    assume "\<exists>m vars. mdl = Ref m \<and> lookup h m = Some (ModelObj vars)"
    then obtain m vars where m: "mdl = Ref m" "lookup h m = Some (ModelObj vars)" by blast
    from m(2) have "lookup ?h1 m = Some (ModelObj vars)"
      by (auto simp: lookup_def nth_append split: if_splits)
    from priors_loop_total[OF this] m(1) show ?thesis by simp
  next
    assume "\<forall>(k, v) \<in> set d. is_numeric h v"
    then have "\<forall>(k, v) \<in> set d. is_numeric ?h1 v"
      by (simp add: is_numeric_append_dict)
    then show ?thesis by (rule priors_loop_all_numeric)
  qed
  then obtain h' where "priors_loop mdl (name_prefix name) (length h) d ?h1 = (Inr (), h')"
    by blast
  with ctx a(1) items show ?thesis
    by (simp add: get_priors_def alloc_def)
qed

text \<open>Every dictionary and array of the store is the same after the call, whatever its outcome.\<close>

lemma get_priors_frame:
  assumes run: "get_priors self model name amb h = (r, h')"
    and ob: "lookup h a = Some ob" "ob = DictObj d \<or> ob = ArrayObj xs"
  shows "lookup h' a = Some ob"
proof (cases "modelcontext model amb")
  case (Inl e)
  with run ob show ?thesis by (simp add: get_priors_def)
next
  case (Inr mdl)
  let ?h1 = "h @ [DictObj []]"
  from ob(1) have a: "a \<noteq> length h" and ob1: "lookup ?h1 a = Some ob"
    by (auto simp: lookup_def nth_append split: if_splits)
  show ?thesis
  proof (cases "getattr self ''priors''")
    case (Inl e)
    with run Inr ob1 show ?thesis by (simp add: get_priors_def alloc_def)
  next
    case stored: (Inr sv)
    show ?thesis
    proof (cases "dict_items sv ?h1")
      case (Inl e)
      with run Inr stored ob1 show ?thesis by (simp add: get_priors_def alloc_def)
    next
      case items: (Inr its)
      obtain rr h2 where loop: "priors_loop mdl (name_prefix name) (length h) its ?h1 = (rr, h2)"
        by (cases "priors_loop mdl (name_prefix name) (length h) its ?h1")
      from run Inr stored items loop have "h' = h2"
        by (cases rr) (simp_all add: get_priors_def alloc_def)
      with priors_loop_frame[OF loop a ob1 ob(2)] show ?thesis by simp
    qed
  qed
qed

lemma get_priors_is_numeric:
  assumes run: "get_priors self model name amb h = (r, h')"
  shows "is_numeric h' x = is_numeric h x"
proof (cases "modelcontext model amb")
  case (Inl e)
  with run show ?thesis by (simp add: get_priors_def)
next
  case (Inr mdl)
  let ?h1 = "h @ [DictObj []]"
  show ?thesis
  proof (cases "getattr self ''priors''")
    case (Inl e)
    with run Inr show ?thesis by (auto simp add: get_priors_def alloc_def is_numeric_append_dict)
  next
    case stored: (Inr sv)
    show ?thesis
    proof (cases "dict_items sv ?h1")
      case (Inl e)
      with run Inr stored show ?thesis
        by (auto simp add: get_priors_def alloc_def is_numeric_append_dict)
    next
      case items: (Inr its)
      obtain rr h2 where loop: "priors_loop mdl (name_prefix name) (length h) its ?h1 = (rr, h2)"
        by (cases "priors_loop mdl (name_prefix name) (length h) its ?h1")
      from run Inr stored items loop have "h' = h2"
        by (cases rr) (simp_all add: get_priors_def alloc_def)
      with priors_loop_is_numeric[OF loop] show ?thesis by (simp add: is_numeric_append_dict)
    qed
  qed
qed

lemma get_priors_Inr_loop:
  assumes run: "get_priors self model name amb h = (Inr r, h')"
  shows "\<exists>mdl sv its u. modelcontext model amb = Inr mdl \<and> getattr self ''priors'' = Inr sv \<and>
           dict_items sv (h @ [DictObj []]) = Inr its \<and> r = Ref (length h) \<and>
           priors_loop mdl (name_prefix name) (length h) its (h @ [DictObj []]) = (Inr u, h')"
  using run
  by (auto simp: get_priors_def alloc_def split: prod.splits sum.splits)

lemma get_priors_fresh:
  assumes run: "get_priors self model name amb h = (Inr r, h')"
  shows "\<exists>d'. r = Ref (length h) \<and> lookup h' (length h) = Some (DictObj d')"
proof -
  from get_priors_Inr_loop[OF run] obtain mdl its u where
    r: "r = Ref (length h)" and
    loop: "priors_loop mdl (name_prefix name) (length h) its (h @ [DictObj []]) = (Inr u, h')"
    by blast
  have "lookup (h @ [DictObj []]) (length h) = Some (DictObj [])"
    by (simp add: lookup_append)
  from priors_loop_dict[OF loop this] r show ?thesis by blast
qed

lemma tensor_like_cong:
  assumes "\<And>x. is_numeric g x = is_numeric h x"
  shows "tensor_like g y = tensor_like h y"
proof (induction y)
  case (Ref a)
  from assms[of "Ref a"] show ?case by simp
qed simp_all

lemma call1_cong:
  assumes "\<And>x. is_numeric g x = is_numeric h x"
  shows "call1 f y g = call1 f y h"
proof -
  have "tensor_like g y = tensor_like h y"
    using assms by (rule tensor_like_cong)
  then show ?thesis
    by (cases "(f, y, g)" rule: call1.cases) auto
qed

lemma create_likelihood_Inr:
  assumes run: "create_likelihood self name y_est y_data model amb h = (Inr call, h')"
  shows "\<exists>h1 lnk linked par lik kw.
     map_of (inst_dict self) ''_get_priors'' = None \<and>
     get_priors self model name amb h = (Inr (Ref (length h)), h1) \<and>
     getattr self ''link'' = Inr lnk \<and> call1 lnk y_est h1 = Inr linked \<and>
     getattr self ''parent'' = Inr (Str par) \<and>
     h' = dict_setitem (length h) par linked h1 \<and>
     getattr self ''likelihood'' = Inr lik \<and>
     dict_items (Ref (length h)) h' = Inr kw \<and>
     call_likelihood lik (name_prefix name @ ''y'') y_data kw = Inr call"
proof -
  obtain gr h1 where cg: "call_get_priors self model name amb h = (gr, h1)"
    by (cases "call_get_priors self model name amb h")
  from run cg obtain r where gr: "gr = Inr r"
    by (cases gr) (auto simp: create_likelihood_def)
  from cg gr have shadow: "map_of (inst_dict self) ''_get_priors'' = None"
    and gp: "get_priors self model name amb h = (Inr r, h1)"
    by (auto simp: call_get_priors_def split: option.splits pyval.splits link_fn.splits)
  from get_priors_fresh[OF gp] have r: "r = Ref (length h)" by blast
  from run cg gr obtain lnk where lnk: "getattr self ''link'' = Inr lnk"
    by (cases "getattr self ''link''") (auto simp: create_likelihood_def)
  from run cg gr lnk obtain linked where linked: "call1 lnk y_est h1 = Inr linked"
    by (cases "call1 lnk y_est h1") (auto simp: create_likelihood_def)
  from run cg gr lnk linked obtain pv where pv: "getattr self ''parent'' = Inr pv"
    by (cases "getattr self ''parent''") (auto simp: create_likelihood_def)
  from run cg gr lnk linked pv obtain par where par: "pv = Str par"
    by (cases pv) (auto simp: create_likelihood_def split: if_splits sum.splits)
  let ?h2 = "dict_setitem (length h) par linked h1"
  from run cg gr r lnk linked pv par obtain lik where lik: "getattr self ''likelihood'' = Inr lik"
    by (cases "getattr self ''likelihood''") (auto simp: create_likelihood_def Let_def)
  from run cg gr r lnk linked pv par lik obtain kw where
    kw: "dict_items (Ref (length h)) ?h2 = Inr kw"
    by (cases "dict_items (Ref (length h)) ?h2") (auto simp: create_likelihood_def Let_def)
  from run cg gr r lnk linked pv par lik kw have
    "h' = ?h2" "call_likelihood lik (name_prefix name @ ''y'') y_data kw = Inr call"
    by (auto simp: create_likelihood_def Let_def)
  with shadow gp r lnk linked pv par lik kw show ?thesis by blast
qed

lemma call_likelihood_Inr:
  "call_likelihood lik nm y_data kw = Inr call \<Longrightarrow>
   node_name call = nm \<and> observed call = y_data \<and> params call = kw \<and> lik = DistCtor (ctor call)"
  by (auto simp: call_likelihood_def split: if_splits pyval.splits link_fn.splits)

lemma resolved_items_keys: "map fst (resolved_items pre h d) = map fst d"
  by (induction d) (auto simp: resolved_items_def)

lemma fold_update_resolved:
  assumes "distinct (map fst d)"
  shows "fold (\<lambda>(k, v). AList.update k v) (resolved_items pre h d) [] = resolved_items pre h d"
proof -
  from assms have "distinct (map fst ([] @ resolved_items pre h d))"
    by (simp add: resolved_items_keys)
  then have "fold (\<lambda>(k, v). AList.update k v) (resolved_items pre h d) []
      = [] @ resolved_items pre h d"
    by (rule fold_update_distinct)
  then show ?thesis by simp
qed

text \<open>
  \<open>create_likelihood\<close> reaches the likelihood constructor whenever the stored priors are
  a dictionary that \<open>get_priors\<close> can resolve, the link accepts the estimate, the parent
  is a string and the likelihood a distribution constructor.
\<close>

lemma create_likelihood_returns:
  assumes noshadow: "map_of (inst_dict self) ''_get_priors'' = None"
    and stored: "stored_priors self h = Some d"
    and keys: "distinct (map fst d)"
    and ctx: "modelcontext model amb = Inr mdl"
    and ok: "(\<exists>m vars. mdl = Ref m \<and> lookup h m = Some (ModelObj vars)) \<or>
             (\<forall>(k, v) \<in> set d. is_numeric h v)"
    and lnk: "getattr self ''link'' = Inr lnk"
    and linked: "call1 lnk y_est h = Inr linked"
    and par: "getattr self ''parent'' = Inr (Str par)"
    and lik: "getattr self ''likelihood'' = Inr (DistCtor c)"
    and obs: "''observed'' \<notin> fst ` set d" "par \<noteq> ''observed''"
  shows "\<exists>h'. create_likelihood self name y_est y_data model amb h =
    (Inr \<lparr>ctor = c, node_name = name_prefix name @ ''y'', observed = y_data,
          params = AList.update par linked (resolved_items (name_prefix name) h d)\<rparr>, h')"
proof -
  let ?p = "length h"
  let ?res = "resolved_items (name_prefix name) h d"
  from get_priors_returns[OF stored ctx ok] obtain h1 where
    gp: "get_priors self model name amb h = (Inr (Ref ?p), h1)" by blast
  from get_priors_result[OF gp stored] fold_update_resolved[OF keys]
  have "deref_dict h1 (Ref ?p) = Some ?res" by simp
  then have at_p: "lookup h1 ?p = Some (DictObj ?res)"
    by (auto simp: deref_dict_def split: option.splits obj.splits)
  have linked1: "call1 lnk y_est h1 = Inr linked"
    using linked call1_cong[of h1 h lnk y_est] get_priors_is_numeric[OF gp] by simp
  let ?h2 = "dict_setitem ?p par linked h1"
  from lookup_setitem_same[OF at_p]
  have items: "dict_items (Ref ?p) ?h2 = Inr (AList.update par linked ?res)"
    by (simp add: dict_items_def)
  have "fst ` set ?res = fst ` set d"
    using arg_cong[OF resolved_items_keys[of "name_prefix name" h d], of set]
    by (simp only: set_map)
  then have "fst ` set (AList.update par linked ?res) = {par} \<union> fst ` set d"
    by (simp only: dom_update)
  with obs have nob: "''observed'' \<notin> fst ` set (AList.update par linked ?res)" by simp
  have cl: "call_likelihood (DistCtor c) (name_prefix name @ ''y'') y_data
      (AList.update par linked ?res) =
    Inr \<lparr>ctor = c, node_name = name_prefix name @ ''y'', observed = y_data,
          params = AList.update par linked ?res\<rparr>"
    using nob by (simp add: call_likelihood_def)
  have "create_likelihood self name y_est y_data model amb h =
    (Inr \<lparr>ctor = c, node_name = name_prefix name @ ''y'', observed = y_data,
          params = AList.update par linked ?res\<rparr>, ?h2)"
    by (simp add: create_likelihood_def call_get_priors_def noshadow gp lnk linked1 par lik
        items cl)
  then show ?thesis by blast
qed

section \<open>\<^verbatim>\<open>Family.__init__\<close> on the store\<close>

lemma setattr_ordinary:
  "\<not> managed_name key \<Longrightarrow>
   setattr self key val = Inr (self\<lparr>inst_dict := AList.update key val (inst_dict self)\<rparr>)"
  by (simp add: setattr_def managed_name_def)

lemma setattr_Inr:
  "setattr self key val = Inr self1 \<Longrightarrow>
   self1 = self\<lparr>inst_dict := AList.update key val (inst_dict self)\<rparr> \<and> \<not> managed_name key"
  by (auto simp: setattr_def managed_name_def split: if_splits pyval.splits)

lemma getattr_update_other:
  "key \<noteq> name \<Longrightarrow>
   getattr (self\<lparr>inst_dict := AList.update key val (inst_dict self)\<rparr>) name = getattr self name"
  by (simp add: getattr_def update_conv' split: option.splits)

lemma getattr_update_same:
  "getattr (self\<lparr>inst_dict := AList.update key val (inst_dict self)\<rparr>) key = Inr val"
  by (simp add: getattr_def update_conv')

text \<open>Keywords other than \<^verbatim>\<open>priors\<close> only fill the instance dictionary.\<close>

lemma init_loop_plain:
  assumes "init_loop self kw h = (Inr inst, h')" "''priors'' \<notin> fst ` set kw"
  shows "h' = h \<and> inst = self\<lparr>inst_dict := fold (\<lambda>(k, v). AList.update k v) kw (inst_dict self)\<rparr>"
  using assms
proof (induction kw arbitrary: self)
  case Nil
  then show ?case by simp
next
  case (Cons kv kw)
  obtain k v where kv: "kv = (k, v)" by (cases kv)
  with Cons.prems(2) have k: "k \<noteq> ''priors''" and rest: "''priors'' \<notin> fst ` set kw" by auto
  from Cons.prems(1) kv k obtain self1 where
    s1: "setattr self k v = Inr self1" and run: "init_loop self1 kw h = (Inr inst, h')"
    by (cases "setattr self k v") auto
  from setattr_Inr[OF s1] Cons.IH[OF run rest] kv show ?case by simp
qed

lemma init_loop_plain_ok:
  assumes "\<forall>k \<in> fst ` set kw. k \<noteq> ''priors'' \<and> \<not> managed_name k"
  shows "init_loop self kw h =
    (Inr (self\<lparr>inst_dict := fold (\<lambda>(k, v). AList.update k v) kw (inst_dict self)\<rparr>), h)"
  using assms
proof (induction kw arbitrary: self)
  case Nil
  then show ?case by simp
next
  case (Cons kv kw)
  obtain k v where kv: "kv = (k, v)" by (cases kv)
  with Cons.prems have k: "k \<noteq> ''priors''" "\<not> managed_name k"
    and rest: "\<forall>k \<in> fst ` set kw. k \<noteq> ''priors'' \<and> \<not> managed_name k" by auto
  from Cons.IH[OF rest] kv k show ?case
    by (simp add: setattr_ordinary)
qed

text \<open>The step for the keyword \<^verbatim>\<open>priors\<close>, when the whole construction succeeds.\<close>

lemma init_loop_priors_step:
  assumes run: "init_loop self ((''priors'', v) # rest) h = (Inr inst, h')"
  shows "\<exists>a d b d2.
     getattr self ''priors'' = Inr (Ref a) \<and> lookup h a = Some (DictObj d) \<and>
     v = Ref b \<and> lookup (h @ [DictObj d]) b = Some (DictObj d2) \<and>
     init_loop (self\<lparr>inst_dict := AList.update ''priors'' (Ref (length h)) (inst_dict self)\<rparr>)
       rest (h @ [DictObj (fold (\<lambda>(k, v). AList.update k v) d2 d)]) = (Inr inst, h')"
proof -
  from run obtain base where base: "getattr self ''priors'' = Inr base"
    by (cases "getattr self ''priors''") auto
  obtain cr h1 where cp: "copy base h = (cr, h1)" by (cases "copy base h")
  from run base cp obtain c where c: "cr = Inr c" by (cases cr) auto
  have nm: "\<not> managed_name ''priors''" by (simp add: managed_name_def)
  let ?self1 = "self\<lparr>inst_dict := AList.update ''priors'' c (inst_dict self)\<rparr>"
  from run base cp c obtain h2 where
    du: "dict_update c v h1 = Inr h2" and run2: "init_loop ?self1 rest h2 = (Inr inst, h')"
    by (cases "dict_update c v h1") (auto simp: setattr_ordinary[OF nm] getattr_update_same)
  from du obtain p d where p: "c = Ref p" "lookup h1 p = Some (DictObj d)"
    by (auto simp: dict_update_def split: pyval.splits option.splits obj.splits if_splits)
  from cp c p(1) obtain a ob where a: "base = Ref a" "lookup h a = Some ob"
    "p = length h" "h1 = h @ [ob]"
    by (auto simp: copy_def split: pyval.splits option.splits)
  from p(2) a(3,4) have ob: "ob = DictObj d" by (simp add: lookup_append)
  from du p a(3,4) ob obtain b d2 where b: "v = Ref b" "lookup (h @ [DictObj d]) b = Some (DictObj d2)"
    "h2 = (h @ [DictObj d])[length h := DictObj (fold (\<lambda>(k, v). AList.update k v) d2 d)]"
    by (auto simp: dict_update_def split: pyval.splits option.splits obj.splits)
  from b(3) have "h2 = h @ [DictObj (fold (\<lambda>(k, v). AList.update k v) d2 d)]" by simp
  with run2 base a ob b(1,2) p(1) show ?thesis by auto
qed

lemma fold_update_keys:
  "fst ` set (fold (\<lambda>(k, v). AList.update k v) xs acc) = fst ` set acc \<union> fst ` set xs"
proof (induction xs arbitrary: acc)
  case Nil
  then show ?case by simp
next
  case (Cons kv xs)
  obtain k v where kv: "kv = (k, v)" by (cases kv)
  have "fst ` set (fold (\<lambda>(k, v). AList.update k v) (kv # xs) acc)
      = fst ` set (AList.update k v acc) \<union> fst ` set xs"
    using Cons.IH kv by simp
  also have "\<dots> = ({k} \<union> fst ` set acc) \<union> fst ` set xs"
    by (simp only: dom_update)
  finally show ?case using kv by auto
qed

lemma map_of_fold_update:
  "distinct (map fst xs) \<Longrightarrow>
   map_of (fold (\<lambda>(k, v). AList.update k v) xs acc) k =
     (case map_of xs k of Some v \<Rightarrow> Some v | None \<Rightarrow> map_of acc k)"
proof (induction xs arbitrary: acc)
  case Nil
  then show ?case by simp
next
  case (Cons kv xs)
  obtain k1 v1 where kv: "kv = (k1, v1)" by (cases kv)
  from Cons.prems kv have d: "distinct (map fst xs)" and notin: "k1 \<notin> fst ` set xs" by auto
  from notin have none: "map_of xs k1 = None" by (simp add: map_of_eq_None_iff)
  from Cons.IH[OF d, of "AList.update k1 v1 acc"] kv none show ?case
    by (auto simp: update_conv' split: option.splits)
qed

text \<open>What a successful construction leaves behind, for distinct keywords.\<close>

lemma init_loop_Inr:
  assumes run: "init_loop self kw h = (Inr inst, h')"
    and keys: "distinct (map fst kw)"
    and fresh: "map_of (inst_dict self) ''priors'' = None"
  shows "inst_class inst = inst_class self \<and>
    inst_dict inst = fold (\<lambda>(k, v). AList.update k v)
      (map (\<lambda>(k, v). (k, if k = ''priors'' then Ref (length h) else v)) kw) (inst_dict self) \<and>
    (''priors'' \<notin> fst ` set kw \<longrightarrow> h' = h) \<and>
    (\<forall>v. (''priors'', v) \<in> set kw \<longrightarrow>
       (\<exists>a d b d2. getattr self ''priors'' = Inr (Ref a) \<and> lookup h a = Some (DictObj d) \<and>
          v = Ref b \<and> lookup (h @ [DictObj d]) b = Some (DictObj d2) \<and>
          h' = h @ [DictObj (fold (\<lambda>(k, v). AList.update k v) d2 d)]))"
  using assms
proof (induction kw arbitrary: self)
  case Nil
  then show ?case by simp
next
  case (Cons kv kw)
  obtain k v where kv: "kv = (k, v)" by (cases kv)
  from Cons.prems(2) kv have dk: "distinct (map fst kw)" and notin: "k \<notin> fst ` set kw" by auto
  show ?case
  proof (cases "k = ''priors''")
    case True
    with notin have rest: "''priors'' \<notin> fst ` set kw" by simp
    from Cons.prems(1) kv True
    have "init_loop self ((''priors'', v) # kw) h = (Inr inst, h')" by simp
    from init_loop_priors_step[OF this] obtain a d b d2 where
      st: "getattr self ''priors'' = Inr (Ref a)" "lookup h a = Some (DictObj d)"
        "v = Ref b" "lookup (h @ [DictObj d]) b = Some (DictObj d2)" and
      run2: "init_loop (self\<lparr>inst_dict := AList.update ''priors'' (Ref (length h)) (inst_dict self)\<rparr>)
         kw (h @ [DictObj (fold (\<lambda>(k, v). AList.update k v) d2 d)]) = (Inr inst, h')"
      by blast
    from init_loop_plain[OF run2 rest] have
      h': "h' = h @ [DictObj (fold (\<lambda>(k, v). AList.update k v) d2 d)]" and
      inst: "inst = self\<lparr>inst_dict := fold (\<lambda>(k, v). AList.update k v) kw
          (AList.update ''priors'' (Ref (length h)) (inst_dict self))\<rparr>"
      by simp_all
    have same: "map (\<lambda>(k, v). (k, if k = ''priors'' then Ref (length h) else v)) kw = kw"
      using rest by (induction kw) auto
    have uniq: "\<forall>w. (''priors'', w) \<in> set (kv # kw) \<longrightarrow> w = v"
      using kv True rest by (auto simp: image_iff)
    from inst same kv True have "inst_dict inst = fold (\<lambda>(k, v). AList.update k v)
      (map (\<lambda>(k, v). (k, if k = ''priors'' then Ref (length h) else v)) (kv # kw)) (inst_dict self)"
      by simp
    moreover from inst have "inst_class inst = inst_class self" by simp
    moreover have "''priors'' \<in> fst ` set (kv # kw)" using kv True by simp
    ultimately show ?thesis using st h' uniq by blast
  next
    case False
    from Cons.prems(1) kv False obtain self1 where
      s1: "setattr self k v = Inr self1" and run2: "init_loop self1 kw h = (Inr inst, h')"
      by (cases "setattr self k v") auto
    from setattr_Inr[OF s1] have self1: "self1 = self\<lparr>inst_dict := AList.update k v (inst_dict self)\<rparr>"
      by simp
    from self1 False Cons.prems(3) have fresh1: "map_of (inst_dict self1) ''priors'' = None"
      by (simp add: update_conv')
    from self1 False have ga: "getattr self1 ''priors'' = getattr self ''priors''"
      by (simp add: getattr_update_other)
    from Cons.IH[OF run2 dk fresh1] self1 ga kv False show ?thesis
      by auto
  qed
qed

lemma init_Inr:
  assumes run: "init cls kwargs h = (Inr inst, h')"
    and keys: "distinct (map fst kwargs)"
  shows "inst_class inst = cls \<and>
      inst_dict inst =
        map (\<lambda>(k, v). (k, if k = ''priors'' then Ref (length h) else v)) kwargs \<and>
      (\<forall>(k, v) \<in> set kwargs. k \<noteq> ''priors'' \<longrightarrow> getattr inst k = Inr v) \<and>
      (''priors'' \<notin> fst ` set kwargs \<longrightarrow> h' = h) \<and>
      (\<forall>v. (''priors'', v) \<in> set kwargs \<longrightarrow>
         (\<exists>a d b d2.
            getattr \<lparr>inst_class = cls, inst_dict = []\<rparr> ''priors'' = Inr (Ref a) \<and>
            lookup h a = Some (DictObj d) \<and>
            v = Ref b \<and> lookup (h @ [DictObj d]) b = Some (DictObj d2) \<and>
            getattr inst ''priors'' = Inr (Ref (length h)) \<and>
            h' = h @ [DictObj (fold (\<lambda>(k, v). AList.update k v) d2 d)]))"
proof (intro conjI)
  let ?self = "\<lparr>inst_class = cls, inst_dict = []\<rparr>"
  let ?kw = "map (\<lambda>(k, v). (k, if k = ''priors'' then Ref (length h) else v)) kwargs"
  from run have run': "init_loop ?self kwargs h = (Inr inst, h')"
    by (simp add: init_def split: if_splits)
  have fresh: "map_of (inst_dict ?self) ''priors'' = None" by simp
  note char = init_loop_Inr[OF run' keys fresh]
  have fst_kw: "map fst ?kw = map fst kwargs" by (induction kwargs) auto
  have dk: "distinct (map fst ?kw)" unfolding fst_kw by (rule keys)
  then have "distinct (map fst ([] @ ?kw))" by simp
  then have "fold (\<lambda>(k, v). AList.update k v) ?kw [] = [] @ ?kw"
    by (rule fold_update_distinct)
  with char have dict: "inst_dict inst = ?kw" by simp
  from char show "inst_class inst = cls" by simp
  from dict show "inst_dict inst = ?kw" .
  show "\<forall>(k, v) \<in> set kwargs. k \<noteq> ''priors'' \<longrightarrow> getattr inst k = Inr v"
  proof (clarify)
    fix k v assume kv: "(k, v) \<in> set kwargs" "k \<noteq> ''priors''"
    then have "(k, v) \<in> set ?kw" by force
    with dk have "map_of ?kw k = Some v" by (rule map_of_is_SomeI)
    with dict show "getattr inst k = Inr v" by (simp add: getattr_def)
  qed
  from char show "''priors'' \<notin> fst ` set kwargs \<longrightarrow> h' = h" by simp
  show "\<forall>v. (''priors'', v) \<in> set kwargs \<longrightarrow>
         (\<exists>a d b d2.
            getattr ?self ''priors'' = Inr (Ref a) \<and>
            lookup h a = Some (DictObj d) \<and>
            v = Ref b \<and> lookup (h @ [DictObj d]) b = Some (DictObj d2) \<and>
            getattr inst ''priors'' = Inr (Ref (length h)) \<and>
            h' = h @ [DictObj (fold (\<lambda>(k, v). AList.update k v) d2 d)])"
  proof (intro allI impI)
    fix v assume v: "(''priors'', v) \<in> set kwargs"
    then have "(''priors'', Ref (length h)) \<in> set ?kw" by force
    with dk have "map_of ?kw ''priors'' = Some (Ref (length h))" by (rule map_of_is_SomeI)
    with dict have "getattr inst ''priors'' = Inr (Ref (length h))" by (simp add: getattr_def)
    with char v show "\<exists>a d b d2.
            getattr ?self ''priors'' = Inr (Ref a) \<and>
            lookup h a = Some (DictObj d) \<and>
            v = Ref b \<and> lookup (h @ [DictObj d]) b = Some (DictObj d2) \<and>
            getattr inst ''priors'' = Inr (Ref (length h)) \<and>
            h' = h @ [DictObj (fold (\<lambda>(k, v). AList.update k v) d2 d)]"
      by blast
  qed
qed

lemma init_plain:
  assumes keys: "distinct (map fst kwargs)"
    and ok: "\<forall>k \<in> fst ` set kwargs. k \<noteq> ''priors'' \<and> \<not> managed_name k"
    and noself: "''self'' \<notin> fst ` set kwargs"
  shows "init cls kwargs h = (Inr \<lparr>inst_class = cls, inst_dict = kwargs\<rparr>, h)"
proof -
  from keys have "distinct (map fst ([] @ kwargs))" by simp
  then have "fold (\<lambda>(k, v). AList.update k v) kwargs [] = [] @ kwargs"
    by (rule fold_update_distinct)
  with init_loop_plain_ok[OF ok, of "\<lparr>inst_class = cls, inst_dict = []\<rparr>" h] noself
  show ?thesis by (simp add: init_def)
qed

lemma binomial_override_init:
  assumes dflt: "lookup h 1 = Some (DictObj [(''n'', PyInt 1)])"
    and over: "lookup h b = Some (DictObj [(''n'', PyInt 5)])"
  shows "init Binomial [(''priors'', Ref b)] h =
    (Inr \<lparr>inst_class = Binomial, inst_dict = [(''priors'', Ref (length h))]\<rparr>,
     h @ [DictObj [(''n'', PyInt 5)]])"
proof -
  from over have b: "b < length h" by (auto simp: lookup_def split: if_splits)
  have ga: "getattr \<lparr>inst_class = Binomial, inst_dict = []\<rparr> ''priors'' = Inr (Ref 1)"
    by (simp add: getattr_def Binomial_def)
  have cp: "copy (Ref (Suc 0)) h = (Inr (Ref (length h)), h @ [DictObj [(''n'', PyInt 1)]])"
    using dflt by (simp add: copy_def)
  have sa: "setattr \<lparr>inst_class = Binomial, inst_dict = []\<rparr> ''priors'' (Ref (length h))
      = Inr \<lparr>inst_class = Binomial, inst_dict = [(''priors'', Ref (length h))]\<rparr>"
    by (simp add: setattr_def)
  have ga2: "getattr \<lparr>inst_class = Binomial, inst_dict = [(''priors'', Ref (length h))]\<rparr> ''priors''
      = Inr (Ref (length h))"
    by (simp add: getattr_def)
  have lb: "lookup (h @ [DictObj [(''n'', PyInt 1)]]) b = Some (DictObj [(''n'', PyInt 5)])"
    using over b by (simp add: lookup_append)
  have du: "dict_update (Ref (length h)) (Ref b) (h @ [DictObj [(''n'', PyInt 1)]])
      = Inr (h @ [DictObj [(''n'', PyInt 5)]])"
    using lb by (simp add: dict_update_def lookup_append)
  show ?thesis
    by (simp add: init_def ga cp sa ga2 du)
qed

lemma binomial_override_get_priors:
  assumes ctx: "model = PyNone \<longrightarrow> amb \<noteq> None"
  shows "get_priors \<lparr>inst_class = Binomial, inst_dict = [(''priors'', Ref (length h))]\<rparr>
      model name amb (h @ [DictObj [(''n'', PyInt 5)]])
    = (Inr (Ref (Suc (length h))), h @ [DictObj [(''n'', PyInt 5)], DictObj [(''n'', PyInt 5)]])"
proof -
  from ctx obtain mdl where mdl: "modelcontext model amb = Inr mdl"
    by (cases model; cases amb) (auto simp: modelcontext_def)
  have ga: "getattr \<lparr>inst_class = Binomial, inst_dict = [(''priors'', Ref (length h))]\<rparr> ''priors''
      = Inr (Ref (length h))"
    by (simp add: getattr_def)
  have items: "dict_items (Ref (length h)) (h @ [DictObj [(''n'', PyInt 5)], DictObj []])
      = Inr [(''n'', PyInt 5)]"
    by (simp add: dict_items_def lookup_def nth_append)
  have set: "dict_setitem (Suc (length h)) ''n'' (PyInt 5)
        (h @ [DictObj [(''n'', PyInt 5)], DictObj []])
      = h @ [DictObj [(''n'', PyInt 5)], DictObj [(''n'', PyInt 5)]]"
    by (simp add: dict_setitem_def lookup_def nth_append list_update_append)
  show ?thesis
    by (simp add: get_priors_def mdl alloc_def ga items set)
qed

lemma map_of_fold_update_other:
  "k \<notin> fst ` set xs \<Longrightarrow> map_of (fold (\<lambda>(k, v). AList.update k v) xs acc) k = map_of acc k"
proof (induction xs arbitrary: acc)
  case Nil
  then show ?case by simp
next
  case (Cons kv xs)
  obtain k1 v1 where kv: "kv = (k1, v1)" by (cases kv)
  from Cons.prems kv have "k \<noteq> k1" "k \<notin> fst ` set xs" by auto
  with Cons.IH[of "AList.update k1 v1 acc"] kv show ?case
    by (simp add: update_conv')
qed

lemma none_priors_class:
  assumes "cls \<in> {StudentT, Normal, Poisson, NegativeBinomial}"
  shows "map_of (class_dict cls) ''priors'' = Some PyNone"
  using assms by (auto simp: StudentT_def Normal_def Poisson_def NegativeBinomial_def)

lemma get_priors_no_mapping:
  assumes "getattr self ''priors'' = Inr PyNone"
  shows "get_priors self model name amb h =
    (if model = PyNone \<and> amb = None then (Inl ContextError, h)
     else (Inl AttributeError, h @ [DictObj []]))"
proof (cases "modelcontext model amb")
  case (Inl e)
  then have "model = PyNone \<and> amb = None \<and> e = ContextError"
    by (auto simp: modelcontext_def split: pyval.splits option.splits)
  with Inl show ?thesis by (simp add: get_priors_def)
next
  case (Inr mdl)
  then have "\<not> (model = PyNone \<and> amb = None)"
    by (auto simp: modelcontext_def split: option.splits)
  with Inr assms show ?thesis
    by (simp add: get_priors_def alloc_def dict_items_def)
qed

lemma init_loop_append_plain:
  assumes "\<forall>k \<in> fst ` set pre. k \<noteq> ''priors'' \<and> \<not> managed_name k"
  shows "init_loop self (pre @ rest) h =
    init_loop (self\<lparr>inst_dict := fold (\<lambda>(k, v). AList.update k v) pre (inst_dict self)\<rparr>) rest h"
  using assms
proof (induction pre arbitrary: self)
  case Nil
  then show ?case by simp
next
  case (Cons kv pre)
  obtain k v where kv: "kv = (k, v)" by (cases kv)
  with Cons.prems have k: "k \<noteq> ''priors''" "\<not> managed_name k"
    and rest: "\<forall>k \<in> fst ` set pre. k \<noteq> ''priors'' \<and> \<not> managed_name k" by auto
  from Cons.IH[OF rest] kv k show ?case
    by (simp add: setattr_ordinary)
qed

lemma init_loop_priors_on_none:
  assumes "getattr self ''priors'' = Inr PyNone"
  shows "init_loop self ((''priors'', v) # rest) h = (Inl AttributeError, h)"
  using assms
  by (simp add: copy_def setattr_def getattr_update_same dict_update_def)

text \<open>The step for the keyword \<^verbatim>\<open>priors\<close> on a class-level dictionary.\<close>

lemma init_loop_priors_total:
  assumes base: "getattr self ''priors'' = Inr (Ref a)"
    and d: "lookup h a = Some (DictObj d)"
    and d2: "lookup h b = Some (DictObj d2)"
  shows "init_loop self ((''priors'', Ref b) # rest) h =
    init_loop (self\<lparr>inst_dict := AList.update ''priors'' (Ref (length h)) (inst_dict self)\<rparr>)
      rest (h @ [DictObj (fold (\<lambda>(k, v). AList.update k v) d2 d)])"
proof -
  from d2 have b: "b < length h" by (auto simp: lookup_def split: if_splits)
  have cp: "copy (Ref a) h = (Inr (Ref (length h)), h @ [DictObj d])"
    using d by (simp add: copy_def)
  have nm: "\<not> managed_name ''priors''" by (simp add: managed_name_def)
  have lb: "lookup (h @ [DictObj d]) b = Some (DictObj d2)"
    using d2 b by (simp add: lookup_append)
  have du: "dict_update (Ref (length h)) (Ref b) (h @ [DictObj d])
      = Inr (h @ [DictObj (fold (\<lambda>(k, v). AList.update k v) d2 d)])"
    using lb by (simp add: dict_update_def lookup_append)
  show ?thesis
    by (simp add: base cp setattr_ordinary[OF nm] getattr_update_same du)
qed

lemma init_priors_returns:
  assumes noself: "''self'' \<notin> fst ` set kwargs"
    and keys: "distinct (map fst kwargs)"
    and ok: "\<forall>k \<in> fst ` set kwargs. \<not> managed_name k"
    and given: "(''priors'', Ref b) \<in> set kwargs"
    and base: "getattr \<lparr>inst_class = cls, inst_dict = []\<rparr> ''priors'' = Inr (Ref a)"
    and d: "lookup h a = Some (DictObj d)"
    and d2: "lookup h b = Some (DictObj d2)"
  shows "\<exists>inst h'. init cls kwargs h = (Inr inst, h')"
proof -
  let ?self = "\<lparr>inst_class = cls, inst_dict = []\<rparr>"
  from given obtain pre post where kw: "kwargs = pre @ (''priors'', Ref b) # post"
    by (auto dest: split_list)
  from keys kw have np: "''priors'' \<notin> fst ` set pre" "''priors'' \<notin> fst ` set post"
    by auto
  from ok kw have "\<forall>k \<in> fst ` set pre. \<not> managed_name k"
    and "\<forall>k \<in> fst ` set post. \<not> managed_name k"
    by simp_all
  with np have okpre: "\<forall>k \<in> fst ` set pre. k \<noteq> ''priors'' \<and> \<not> managed_name k"
    and okpost: "\<forall>k \<in> fst ` set post. k \<noteq> ''priors'' \<and> \<not> managed_name k"
    by blast+
  let ?self1 = "?self\<lparr>inst_dict := fold (\<lambda>(k, v). AList.update k v) pre (inst_dict ?self)\<rparr>"
  from np(1) have "''priors'' \<notin> fst ` set (fold (\<lambda>(k, v). AList.update k v) pre [])"
    by (simp add: fold_update_keys)
  then have "map_of (fold (\<lambda>(k, v). AList.update k v) pre []) ''priors'' = None"
    by (simp add: map_of_eq_None_iff)
  with base have base1: "getattr ?self1 ''priors'' = Inr (Ref a)"
    by (simp add: getattr_def)
  let ?self2 = "?self1\<lparr>inst_dict := AList.update ''priors'' (Ref (length h)) (inst_dict ?self1)\<rparr>"
  let ?h2 = "h @ [DictObj (fold (\<lambda>(k, v). AList.update k v) d2 d)]"
  have "init_loop ?self kwargs h = init_loop ?self1 ((''priors'', Ref b) # post) h"
    unfolding kw by (rule init_loop_append_plain[OF okpre])
  also have "\<dots> = init_loop ?self2 post ?h2"
    using base1 d d2 by (rule init_loop_priors_total)
  also have "\<dots> = (Inr (?self2\<lparr>inst_dict :=
      fold (\<lambda>(k, v). AList.update k v) post (inst_dict ?self2)\<rparr>), ?h2)"
    by (rule init_loop_plain_ok[OF okpost])
  finally show ?thesis using noself by (simp add: init_def)
qed

lemma init_priors_total:
  assumes noself: "''self'' \<notin> fst ` set kwargs"
    and keys: "distinct (map fst kwargs)"
    and ok: "\<forall>k \<in> fst ` set kwargs. \<not> managed_name k"
    and given: "(''priors'', Ref b) \<in> set kwargs"
    and base: "getattr \<lparr>inst_class = cls, inst_dict = []\<rparr> ''priors'' = Inr (Ref a)"
    and d: "lookup h a = Some (DictObj d)"
    and d2: "lookup h b = Some (DictObj d2)"
  shows "init cls kwargs h =
    (Inr \<lparr>inst_class = cls,
          inst_dict = map (\<lambda>(k, v). (k, if k = ''priors'' then Ref (length h) else v)) kwargs\<rparr>,
     h @ [DictObj (fold (\<lambda>(k, v). AList.update k v) d2 d)])"
proof -
  from init_priors_returns[OF assms] obtain inst h' where
    run: "init cls kwargs h = (Inr inst, h')" by blast
  note char = init_Inr[OF run keys]
  from char given obtain a' d' b' d2' where
    st: "getattr \<lparr>inst_class = cls, inst_dict = []\<rparr> ''priors'' = Inr (Ref a')"
      "lookup h a' = Some (DictObj d')" "Ref b = Ref b'"
      "lookup (h @ [DictObj d']) b' = Some (DictObj d2')"
      "h' = h @ [DictObj (fold (\<lambda>(k, v). AList.update k v) d2' d')]"
    by blast
  from st(1) base have "a' = a" by simp
  with st(2) d have "d' = d" by simp
  from d2 have "b < length h" by (auto simp: lookup_def split: if_splits)
  with st(3,4) d2 have "d2' = d2" by (simp add: lookup_append)
  from char have "inst = \<lparr>inst_class = cls,
      inst_dict = map (\<lambda>(k, v). (k, if k = ''priors'' then Ref (length h) else v)) kwargs\<rparr>"
    by simp
  with run st(5) \<open>d' = d\<close> \<open>d2' = d2\<close> show ?thesis by simp
qed

section \<open>The worked example, evaluated\<close>

lemmas run_simps =
  init_def getattr_def setattr_def copy_def dict_update_def dict_items_def dict_setitem_def
  lookup_def alloc_def modelcontext_def register_rv_def get_priors_def call_get_priors_def
  create_likelihood_def call_likelihood_def name_prefix_def module_heap_def Family_dict_def
  identity_def logit_def exp_link_def inverse_link_def stored_priors_def deref_dict_def

lemma demo_init: "init Binomial [(''priors'', Ref 2)] demo_heap = (Inr demo_family, demo_heap2)"
  by (simp add: run_simps Binomial_def demo_heap_def demo_family_def demo_heap2_def)

lemma demo_run:
  "create_likelihood demo_family ''g'' (TensorVar ''est'') (TensorVar ''obs'') PyNone (Some 3) demo_heap2
   = (Inr \<lparr>ctor = ''Binomial'', node_name = ''g_y'', observed = TensorVar ''obs'',
           params = [(''n'', PyInt 1), (''p'', Elemwise Sigmoid (TensorVar ''est'')),
                     (''sd'', RV ''g_sd'')]\<rparr>,
      module_heap @
       [DictObj [(''p'', PyFloat 0.3), (''sd'', TensorVar ''HalfCauchy'')],
        ModelObj [(''x'', TensorVar ''Normal''), (''g_sd'', TensorVar ''HalfCauchy'')],
        DictObj [(''n'', PyInt 1), (''p'', PyFloat 0.3), (''sd'', TensorVar ''HalfCauchy'')],
        DictObj [(''n'', PyInt 1), (''p'', Elemwise Sigmoid (TensorVar ''est'')),
                     (''sd'', RV ''g_sd'')]])"
  by (simp add: run_simps Binomial_def demo_heap_def demo_family_def demo_heap2_def)

lemma demo_get_priors:
  "get_priors demo_family PyNone ''g'' (Some 3) demo_heap2
   = (Inr (Ref 5),
      module_heap @
       [DictObj [(''p'', PyFloat 0.3), (''sd'', TensorVar ''HalfCauchy'')],
        ModelObj [(''x'', TensorVar ''Normal''), (''g_sd'', TensorVar ''HalfCauchy'')],
        DictObj [(''n'', PyInt 1), (''p'', PyFloat 0.3), (''sd'', TensorVar ''HalfCauchy'')],
        DictObj [(''n'', PyInt 1), (''p'', PyFloat 0.3), (''sd'', RV ''g_sd'')]])"
  by (simp add: run_simps Binomial_def demo_heap_def demo_family_def demo_heap2_def)

lemma demo_stored:
  "stored_priors demo_family demo_heap2 =
     Some [(''n'', PyInt 1), (''p'', PyFloat 0.3), (''sd'', TensorVar ''HalfCauchy'')]"
  by (simp add: run_simps Binomial_def demo_heap_def demo_family_def demo_heap2_def)



lemma demo_model: "lookup demo_heap2 3 = Some (ModelObj [(''x'', TensorVar ''Normal'')])"
  by (simp add: lookup_def demo_heap2_def demo_heap_def module_heap_def)

lemma array_init_first:
  "init array_family [(''priors'', Ref 4)] array_heap =
     (Inr \<lparr>inst_class = array_family, inst_dict = [(''priors'', Ref 5)]\<rparr>,
      array_heap @ [DictObj [(''w'', Ref 3), (''extra'', PyInt 5)]])"
  by (simp add: run_simps array_family_def array_heap_def)

lemma array_init_second:
  "init array_family [(''priors'', Ref 4)]
       (array_heap @ [DictObj [(''w'', Ref 3), (''extra'', PyInt 5)]]) =
     (Inr \<lparr>inst_class = array_family, inst_dict = [(''priors'', Ref 6)]\<rparr>,
      array_heap @ [DictObj [(''w'', Ref 3), (''extra'', PyInt 5)],
                    DictObj [(''w'', Ref 3), (''extra'', PyInt 5)]])"
  by (simp add: run_simps array_family_def array_heap_def)

lemma normal_default_attr:
  "getattr \<lparr>inst_class = Normal, inst_dict = []\<rparr> ''priors'' = Inr PyNone"
  by (simp add: getattr_def Normal_def)

lemma demo_heap_model: "lookup demo_heap 3 = Some (ModelObj [(''x'', TensorVar ''Normal'')])"
  by (simp add: lookup_def demo_heap_def module_heap_def)

section \<open>The link functions, evaluated\<close>

lemma those_sigmoid:
  "those (map (scalar_op Sigmoid) xs) = Some (map (\<lambda>r. 1 / (1 + exp (- r))) xs)"
  by (induction xs) simp_all

lemma those_exponential: "those (map (scalar_op Exponential) xs) = Some (map exp xs)"
  by (induction xs) simp_all

lemma those_reciprocal:
  "0 \<notin> set xs \<Longrightarrow> those (map (scalar_op Reciprocal) xs) = Some (map (\<lambda>r. 1 / r) xs)"
  by (induction xs) auto

lemma sigmoid_bounds: "0 < 1 / (1 + exp (- r)) \<and> 1 / (1 + exp (- r)) < (1::real)"
  by (simp add: add_pos_pos)

text \<open>
  C9. The four link functions. \<open>identity\<close> returns its argument, whatever it is. On
  every input a tensor operation accepts (a number, a numpy scalar, an array, a tensor)
  and that stands for the elements \<open>xs\<close>: the logistic link stands for the sigmoid of
  every element, each strictly between 0 and 1; the exponential link for the exponential
  of every element, each positive; and the reciprocal link, when no element is zero, for
  \<open>1 / x\<close> of every element. The elements are real numbers.
\<close>

theorem link_identities:
  "call1 identity x h = Inr x \<and>
   (tensor_like h x \<and> tensor_value env h x = Some xs \<longrightarrow>
      (\<exists>t ys. call1 logit x h = Inr t \<and> tensor_value env h t = Some ys \<and>
         ys = map (\<lambda>r. 1 / (1 + exp (- r))) xs \<and> (\<forall>y \<in> set ys. 0 < y \<and> y < 1)) \<and>
      (\<exists>t ys. call1 exp_link x h = Inr t \<and> tensor_value env h t = Some ys \<and>
         ys = map exp xs \<and> (\<forall>y \<in> set ys. 0 < y)) \<and>
      (0 \<notin> set xs \<longrightarrow>
         (\<exists>t. call1 inverse_link x h = Inr t \<and>
            tensor_value env h t = Some (map (\<lambda>r. 1 / r) xs))))"
proof (intro conjI impI)
  show "call1 identity x h = Inr x" by (simp add: identity_def)
next
  assume a: "tensor_like h x \<and> tensor_value env h x = Some xs"
  from a those_sigmoid[of xs] have "tensor_value env h (Elemwise Sigmoid x) = Some (map (\<lambda>r. 1 / (1 + exp (- r))) xs)"
    by simp
  moreover have "\<forall>y \<in> set (map (\<lambda>r. 1 / (1 + exp (- r))) xs). 0 < y \<and> y < 1"
    using sigmoid_bounds by auto
  moreover from a have "call1 logit x h = Inr (Elemwise Sigmoid x)" by (simp add: logit_def)
  ultimately show "\<exists>t ys. call1 logit x h = Inr t \<and> tensor_value env h t = Some ys \<and>
         ys = map (\<lambda>r. 1 / (1 + exp (- r))) xs \<and> (\<forall>y \<in> set ys. 0 < y \<and> y < 1)"
    by blast
next
  assume a: "tensor_like h x \<and> tensor_value env h x = Some xs"
  from a those_exponential[of xs] have "tensor_value env h (Elemwise Exponential x) = Some (map exp xs)" by simp
  moreover have "\<forall>y \<in> set (map exp xs). 0 < (y::real)" by auto
  moreover from a have "call1 exp_link x h = Inr (Elemwise Exponential x)"
    by (simp add: exp_link_def)
  ultimately show "\<exists>t ys. call1 exp_link x h = Inr t \<and> tensor_value env h t = Some ys \<and>
         ys = map exp xs \<and> (\<forall>y \<in> set ys. 0 < y)"
    by blast
next
  assume a: "tensor_like h x \<and> tensor_value env h x = Some xs" and nz: "0 \<notin> set xs"
  from a those_reciprocal[OF nz]
  have "tensor_value env h (Elemwise Reciprocal x) = Some (map (\<lambda>r. 1 / r) xs)" by simp
  moreover from a have "call1 inverse_link x h = Inr (Elemwise Reciprocal x)"
    by (simp add: inverse_link_def)
  ultimately show "\<exists>t. call1 inverse_link x h = Inr t \<and>
            tensor_value env h t = Some (map (\<lambda>r. 1 / r) xs)"
    by blast
qed

theorem link_identities_witness:
  "call1 identity (Str ''x'') array_heap = Inr (Str ''x'') \<and>
   tensor_like array_heap (Ref 3) \<and>
   tensor_value (\<lambda>v. []) array_heap (Ref 3) = Some [1, 2] \<and>
   (0::real) \<notin> set [1, 2] \<and>
   (\<exists>t ys. call1 logit (Ref 3) array_heap = Inr t \<and>
      tensor_value (\<lambda>v. []) array_heap t = Some ys \<and>
      ys = [1 / (1 + exp (- 1)), 1 / (1 + exp (- 2))] \<and> (\<forall>y \<in> set ys. 0 < y \<and> y < 1)) \<and>
   (\<exists>t ys. call1 exp_link (Ref 3) array_heap = Inr t \<and>
      tensor_value (\<lambda>v. []) array_heap t = Some ys \<and>
      ys = [exp 1, exp 2] \<and> (\<forall>y \<in> set ys. 0 < y)) \<and>
   (\<exists>t. call1 inverse_link (Ref 3) array_heap = Inr t \<and>
      tensor_value (\<lambda>v. []) array_heap t = Some [1, 1 / 2])"
proof -
  have a: "tensor_like array_heap (Ref 3)"
    and b: "tensor_value (\<lambda>v. []) array_heap (Ref 3) = Some [1, 2]"
    by (simp_all add: array_heap_def module_heap_def lookup_def)
  have c: "(0::real) \<notin> set [1, 2]" by simp
  from link_identities[of "Str ''x''" array_heap] have i: "call1 identity (Str ''x'') array_heap = Inr (Str ''x'')"
    by blast
  from link_identities[of "Ref 3" array_heap "\<lambda>v. []" "[1, 2]"] a b c
  show ?thesis using i by simp
qed

section \<open>Likelihood construction\<close>

text \<open>
  C1, as stated, fails: not every instance gets as far as the overwrite. For
  \<^verbatim>\<open>Normal()\<close>, with a model at hand, \<open>create_likelihood\<close> raises at line 88, on the
  \<^verbatim>\<open>None\<close> stored as priors, before line 90 is reached, and no likelihood call is made.
\<close>

theorem parent_overwrite_counterexample:
  "init Normal [] demo_heap = (Inr \<lparr>inst_class = Normal, inst_dict = []\<rparr>, demo_heap) \<and>
   lookup demo_heap 3 = Some (ModelObj [(''x'', TensorVar ''Normal'')]) \<and>
   create_likelihood \<lparr>inst_class = Normal, inst_dict = []\<rparr> ''g'' (TensorVar ''est'')
       (TensorVar ''obs'') (Ref 3) None demo_heap =
     (Inl AttributeError, demo_heap @ [DictObj []]) \<and>
   \<not> (\<exists>call h'. create_likelihood \<lparr>inst_class = Normal, inst_dict = []\<rparr> ''g''
       (TensorVar ''est'') (TensorVar ''obs'') (Ref 3) None demo_heap = (Inr call, h'))"
proof -
  have a: "init Normal [] demo_heap = (Inr \<lparr>inst_class = Normal, inst_dict = []\<rparr>, demo_heap)"
    by (simp add: init_def)
  have "get_priors \<lparr>inst_class = Normal, inst_dict = []\<rparr> (Ref 3) ''g'' None demo_heap =
     (Inl AttributeError, demo_heap @ [DictObj []])"
    using get_priors_no_mapping[OF normal_default_attr, of "Ref 3" "''g''" None demo_heap]
    by simp
  then have b: "create_likelihood \<lparr>inst_class = Normal, inst_dict = []\<rparr> ''g''
       (TensorVar ''est'') (TensorVar ''obs'') (Ref 3) None demo_heap =
     (Inl AttributeError, demo_heap @ [DictObj []])"
    by (simp add: create_likelihood_def call_get_priors_def)
  from a b demo_heap_model show ?thesis by simp
qed

text \<open>
  C1, amended. For an instance whose priors are a dictionary \<open>get_priors\<close> can resolve
  (a model for the non-numeric entries, or numeric entries only), whose link accepts the
  estimate, whose parent is a string and whose likelihood is a distribution constructor,
  \<open>create_likelihood\<close> reaches the constructor, and the parameters it passes are the
  resolved priors with the parent entry set to \<^verbatim>\<open>self.link(y_est)\<close>. On every run that
  reaches the constructor the parent entry is that value, whatever the instance's prior
  mapping holds under the parent's name.
\<close>

theorem parent_overwritten:
  "(map_of (inst_dict self) ''_get_priors'' = None \<and>
    stored_priors self h = Some d \<and> distinct (map fst d) \<and>
    modelcontext model amb = Inr mdl \<and>
    ((\<exists>m vars. mdl = Ref m \<and> lookup h m = Some (ModelObj vars)) \<or>
     (\<forall>(k, v) \<in> set d. is_numeric h v)) \<and>
    getattr self ''link'' = Inr lnk \<and> call1 lnk y_est h = Inr linked \<and>
    getattr self ''parent'' = Inr (Str par) \<and>
    getattr self ''likelihood'' = Inr (DistCtor c) \<and>
    ''observed'' \<notin> fst ` set d \<and> par \<noteq> ''observed'' \<longrightarrow>
      (\<exists>call h'. create_likelihood self name y_est y_data model amb h = (Inr call, h') \<and>
         ctor call = c \<and>
         params call = AList.update par linked
           (map (\<lambda>(k, v). (k, if is_numeric h v then v else RV (name_prefix name @ k))) d) \<and>
         map_of (params call) par = Some linked)) \<and>
   (\<forall>call h'. create_likelihood self name y_est y_data model amb h = (Inr call, h') \<longrightarrow>
      (\<exists>par lnk linked.
         getattr self ''parent'' = Inr (Str par) \<and> getattr self ''link'' = Inr lnk \<and>
         call1 lnk y_est h = Inr linked \<and> map_of (params call) par = Some linked))"
proof (intro conjI impI allI)
  assume a: "map_of (inst_dict self) ''_get_priors'' = None \<and>
    stored_priors self h = Some d \<and> distinct (map fst d) \<and>
    modelcontext model amb = Inr mdl \<and>
    ((\<exists>m vars. mdl = Ref m \<and> lookup h m = Some (ModelObj vars)) \<or>
     (\<forall>(k, v) \<in> set d. is_numeric h v)) \<and>
    getattr self ''link'' = Inr lnk \<and> call1 lnk y_est h = Inr linked \<and>
    getattr self ''parent'' = Inr (Str par) \<and>
    getattr self ''likelihood'' = Inr (DistCtor c) \<and>
    ''observed'' \<notin> fst ` set d \<and> par \<noteq> ''observed''"
  then have f: "map_of (inst_dict self) ''_get_priors'' = None"
    "stored_priors self h = Some d" "distinct (map fst d)"
    "modelcontext model amb = Inr mdl"
    "(\<exists>m vars. mdl = Ref m \<and> lookup h m = Some (ModelObj vars)) \<or>
     (\<forall>(k, v) \<in> set d. is_numeric h v)"
    "getattr self ''link'' = Inr lnk" "call1 lnk y_est h = Inr linked"
    "getattr self ''parent'' = Inr (Str par)"
    "getattr self ''likelihood'' = Inr (DistCtor c)"
    "''observed'' \<notin> fst ` set d" "par \<noteq> ''observed''"
    by blast+
  have "\<exists>h'. create_likelihood self name y_est y_data model amb h =
    (Inr \<lparr>ctor = c, node_name = name_prefix name @ ''y'', observed = y_data,
          params = AList.update par linked (resolved_items (name_prefix name) h d)\<rparr>, h')"
    using f by (rule create_likelihood_returns)
  then obtain h' where run: "create_likelihood self name y_est y_data model amb h =
    (Inr \<lparr>ctor = c, node_name = name_prefix name @ ''y'', observed = y_data,
          params = AList.update par linked (resolved_items (name_prefix name) h d)\<rparr>, h')"
    by blast
  have "map_of (AList.update par linked (resolved_items (name_prefix name) h d)) par
      = Some linked"
    by (simp add: update_conv')
  with run show "\<exists>call h'. create_likelihood self name y_est y_data model amb h = (Inr call, h') \<and>
         ctor call = c \<and>
         params call = AList.update par linked
           (map (\<lambda>(k, v). (k, if is_numeric h v then v else RV (name_prefix name @ k))) d) \<and>
         map_of (params call) par = Some linked"
    by (simp add: resolved_items_def)
next
  fix call h'
  assume run: "create_likelihood self name y_est y_data model amb h = (Inr call, h')"
  from create_likelihood_Inr[OF run] obtain h1 lnk linked par lik kw where
    gp: "get_priors self model name amb h = (Inr (Ref (length h)), h1)" and
    lnk: "getattr self ''link'' = Inr lnk" and
    linked: "call1 lnk y_est h1 = Inr linked" and
    par: "getattr self ''parent'' = Inr (Str par)" and
    h': "h' = dict_setitem (length h) par linked h1" and
    kw: "dict_items (Ref (length h)) h' = Inr kw" and
    call: "call_likelihood lik (name_prefix name @ ''y'') y_data kw = Inr call"
    by blast
  from get_priors_fresh[OF gp] obtain d' where d': "lookup h1 (length h) = Some (DictObj d')"
    by blast
  from lookup_setitem_same[OF d'] h' kw have "kw = AList.update par linked d'"
    by (simp add: dict_items_def)
  then have "map_of kw par = Some linked"
    by (simp add: update_conv')
  moreover have "call1 lnk y_est h = Inr linked"
    using linked call1_cong[of h1 h lnk y_est] get_priors_is_numeric[OF gp] by simp
  moreover from call_likelihood_Inr[OF call] have "params call = kw" by simp
  ultimately show "\<exists>par lnk linked.
         getattr self ''parent'' = Inr (Str par) \<and> getattr self ''link'' = Inr lnk \<and>
         call1 lnk y_est h = Inr linked \<and> map_of (params call) par = Some linked"
    using par lnk by auto
qed

theorem parent_overwritten_witness:
  "map_of (inst_dict demo_family) ''_get_priors'' = None \<and>
   stored_priors demo_family demo_heap2 =
     Some [(''n'', PyInt 1), (''p'', PyFloat 0.3), (''sd'', TensorVar ''HalfCauchy'')] \<and>
   distinct (map fst [(''n'', PyInt 1), (''p'', PyFloat 0.3), (''sd'', TensorVar ''HalfCauchy'')]) \<and>
   modelcontext PyNone (Some 3) = Inr (Ref 3) \<and>
   lookup demo_heap2 3 = Some (ModelObj [(''x'', TensorVar ''Normal'')]) \<and>
   getattr demo_family ''link'' = Inr logit \<and>
   call1 logit (TensorVar ''est'') demo_heap2 = Inr (Elemwise Sigmoid (TensorVar ''est'')) \<and>
   getattr demo_family ''parent'' = Inr (Str ''p'') \<and>
   getattr demo_family ''likelihood'' = Inr (DistCtor ''Binomial'') \<and>
   (\<exists>call h'.
      create_likelihood demo_family ''g'' (TensorVar ''est'') (TensorVar ''obs'') PyNone (Some 3)
        demo_heap2 = (Inr call, h') \<and>
      ctor call = ''Binomial'' \<and>
      params call = [(''n'', PyInt 1), (''p'', Elemwise Sigmoid (TensorVar ''est'')),
                     (''sd'', RV ''g_sd'')] \<and>
      map_of (params call) ''p'' = Some (Elemwise Sigmoid (TensorVar ''est'')))"
proof -
  let ?d = "[(''n'', PyInt 1), (''p'', PyFloat 0.3), (''sd'', TensorVar ''HalfCauchy'')]"
  have sh: "map_of (inst_dict demo_family) ''_get_priors'' = None"
    by (simp add: demo_family_def)
  have keys: "distinct (map fst ?d)" by simp
  have ctx: "modelcontext PyNone (Some 3) = Inr (Ref 3)" by (simp add: modelcontext_def)
  have attrs: "getattr demo_family ''parent'' = Inr (Str ''p'')"
    "getattr demo_family ''link'' = Inr logit"
    "getattr demo_family ''likelihood'' = Inr (DistCtor ''Binomial'')"
    by (simp_all add: getattr_def demo_family_def Binomial_def Family_dict_def)
  have c: "call1 logit (TensorVar ''est'') demo_heap2 = Inr (Elemwise Sigmoid (TensorVar ''est''))"
    by (simp add: logit_def)
  have num: "is_numeric demo_heap2 (PyInt 1)" "is_numeric demo_heap2 (PyFloat 0.3)"
    "\<not> is_numeric demo_heap2 (TensorVar ''HalfCauchy'')"
    by simp_all
  have obs: "''observed'' \<notin> fst ` set ?d" "''p'' \<noteq> ''observed''" by simp_all
  from parent_overwritten[THEN conjunct1, of demo_family demo_heap2 ?d PyNone "Some 3" "Ref 3"
      logit "TensorVar ''est''" "Elemwise Sigmoid (TensorVar ''est'')" "''p''" "''Binomial''"
      "''g''" "TensorVar ''obs''"]
    sh demo_stored keys ctx demo_model attrs c obs num
  have "\<exists>call h'.
      create_likelihood demo_family ''g'' (TensorVar ''est'') (TensorVar ''obs'') PyNone (Some 3)
        demo_heap2 = (Inr call, h') \<and>
      ctor call = ''Binomial'' \<and>
      params call = [(''n'', PyInt 1), (''p'', Elemwise Sigmoid (TensorVar ''est'')),
                     (''sd'', RV ''g_sd'')] \<and>
      map_of (params call) ''p'' = Some (Elemwise Sigmoid (TensorVar ''est''))"
    by (simp add: name_prefix_def)
  with sh demo_stored keys ctx demo_model attrs c show ?thesis by simp
qed

section \<open>Resolving priors\<close>

text \<open>
  C2, as stated, fails: \<open>get_priors\<close> does not return a mapping for every family. For
  \<^verbatim>\<open>Normal()\<close>, with a model at hand, it raises AttributeError on \<^verbatim>\<open>None.items()\<close>.
\<close>

theorem resolve_priors_counterexample:
  "init Normal [] demo_heap = (Inr \<lparr>inst_class = Normal, inst_dict = []\<rparr>, demo_heap) \<and>
   lookup demo_heap 3 = Some (ModelObj [(''x'', TensorVar ''Normal'')]) \<and>
   get_priors \<lparr>inst_class = Normal, inst_dict = []\<rparr> (Ref 3) ''g'' None demo_heap =
     (Inl AttributeError, demo_heap @ [DictObj []]) \<and>
   \<not> (\<exists>r h'. get_priors \<lparr>inst_class = Normal, inst_dict = []\<rparr> (Ref 3) ''g'' None demo_heap =
     (Inr r, h'))"
proof -
  have a: "init Normal [] demo_heap = (Inr \<lparr>inst_class = Normal, inst_dict = []\<rparr>, demo_heap)"
    by (simp add: init_def)
  have b: "get_priors \<lparr>inst_class = Normal, inst_dict = []\<rparr> (Ref 3) ''g'' None demo_heap =
     (Inl AttributeError, demo_heap @ [DictObj []])"
    using get_priors_no_mapping[OF normal_default_attr, of "Ref 3" "''g''" None demo_heap]
    by simp
  from a b demo_heap_model show ?thesis by simp
qed

text \<open>
  C2, amended. For an instance whose priors are a dictionary (with distinct keys, as
  every dictionary has), \<open>get_priors\<close> returns whenever the resolved context is a model
  or every entry is numeric. Whenever it returns, the returned dictionary has the keys of
  the stored mapping, in the same order; a numeric entry keeps its value, every other
  entry is the handle of a variable registered in the resolved model context under the
  prefixed key, and the model gains no variable for a numeric entry.
\<close>

theorem resolve_priors_mapping:
  assumes stored: "stored_priors self h = Some d"
    and keys: "distinct (map fst d)"
  shows "(modelcontext model amb = Inr mdl \<and>
      ((\<exists>m vars. mdl = Ref m \<and> lookup h m = Some (ModelObj vars)) \<or>
       (\<forall>(k, v) \<in> set d. is_numeric h v)) \<longrightarrow>
        (\<exists>r h'. get_priors self model name amb h = (Inr r, h'))) \<and>
   (\<forall>r h'. get_priors self model name amb h = (Inr r, h') \<longrightarrow>
     (\<exists>d'. deref_dict h' r = Some d' \<and>
       d' = map (\<lambda>(k, v). (k, if is_numeric h v then v else RV (name_prefix name @ k))) d \<and>
       set (map fst d') = set (map fst d) \<and>
       (\<forall>(k, v) \<in> set d. is_numeric h v \<longrightarrow> map_of d' k = Some v) \<and>
       (\<forall>(k, v) \<in> set d. \<not> is_numeric h v \<longrightarrow>
          map_of d' k = Some (RV (name_prefix name @ k)) \<and>
          (\<exists>m vars. modelcontext model amb = Inr (Ref m) \<and>
             lookup h' m = Some (ModelObj vars) \<and> (name_prefix name @ k, v) \<in> set vars)) \<and>
       (\<forall>m vars. modelcontext model amb = Inr (Ref m) \<and> lookup h m = Some (ModelObj vars) \<longrightarrow>
          (\<exists>new. lookup h' m = Some (ModelObj (vars @ new)) \<and>
             (\<forall>(n, v) \<in> set new. \<not> is_numeric h v)))))"
proof (intro conjI impI allI)
  assume "modelcontext model amb = Inr mdl \<and>
      ((\<exists>m vars. mdl = Ref m \<and> lookup h m = Some (ModelObj vars)) \<or>
       (\<forall>(k, v) \<in> set d. is_numeric h v))"
  then have ctx: "modelcontext model amb = Inr mdl"
    and ok: "(\<exists>m vars. mdl = Ref m \<and> lookup h m = Some (ModelObj vars)) \<or>
       (\<forall>(k, v) \<in> set d. is_numeric h v)"
    by blast+
  from get_priors_returns[OF stored ctx ok]
  show "\<exists>r h'. get_priors self model name amb h = (Inr r, h')" by blast
next
  fix r h'
  assume run: "get_priors self model name amb h = (Inr r, h')"
  show "\<exists>d'. deref_dict h' r = Some d' \<and>
       d' = map (\<lambda>(k, v). (k, if is_numeric h v then v else RV (name_prefix name @ k))) d \<and>
       set (map fst d') = set (map fst d) \<and>
       (\<forall>(k, v) \<in> set d. is_numeric h v \<longrightarrow> map_of d' k = Some v) \<and>
       (\<forall>(k, v) \<in> set d. \<not> is_numeric h v \<longrightarrow>
          map_of d' k = Some (RV (name_prefix name @ k)) \<and>
          (\<exists>m vars. modelcontext model amb = Inr (Ref m) \<and>
             lookup h' m = Some (ModelObj vars) \<and> (name_prefix name @ k, v) \<in> set vars)) \<and>
       (\<forall>m vars. modelcontext model amb = Inr (Ref m) \<and> lookup h m = Some (ModelObj vars) \<longrightarrow>
          (\<exists>new. lookup h' m = Some (ModelObj (vars @ new)) \<and>
             (\<forall>(n, v) \<in> set new. \<not> is_numeric h v)))"
  proof -
    let ?pre = "name_prefix name"
    let ?d' = "resolved_items ?pre h d"
    have keys': "map fst ?d' = map fst d"
      by (induction d) (auto simp: resolved_items_def)
    with keys have "distinct (map fst ([] @ ?d'))" by simp
    then have "fold (\<lambda>(k, v). AList.update k v) ?d' [] = [] @ ?d'"
      by (rule fold_update_distinct)
    with get_priors_result[OF run stored] have deref: "deref_dict h' r = Some ?d'" by simp
    have num: "\<forall>(k, v) \<in> set d. is_numeric h v \<longrightarrow> map_of ?d' k = Some v"
    proof (clarify)
      fix k v assume "(k, v) \<in> set d" "is_numeric h v"
      then have "(k, v) \<in> set ?d'" by (force simp: resolved_items_def)
      with keys keys' show "map_of ?d' k = Some v" by simp
    qed
    have sym: "\<forall>(k, v) \<in> set d. \<not> is_numeric h v \<longrightarrow>
          map_of ?d' k = Some (RV (?pre @ k)) \<and>
          (\<exists>m vars. modelcontext model amb = Inr (Ref m) \<and> lookup h' m = Some (ModelObj vars) \<and>
             (?pre @ k, v) \<in> set vars)"
    proof (clarify)
      fix k v assume kv: "(k, v) \<in> set d" "\<not> is_numeric h v"
      then have "(k, RV (?pre @ k)) \<in> set ?d'" by (force simp: resolved_items_def)
      with keys keys' have a: "map_of ?d' k = Some (RV (?pre @ k))" by simp
      from get_priors_needs_model[OF run stored kv] obtain m vars where
        m: "modelcontext model amb = Inr (Ref m)" "lookup h m = Some (ModelObj vars)" by blast
      from get_priors_model[OF run stored m]
      have "lookup h' m = Some (ModelObj (vars @ registrations ?pre h d))" .
      moreover from kv have "(?pre @ k, v) \<in> set (registrations ?pre h d)"
        by (force simp: registrations_def)
      ultimately show "map_of ?d' k = Some (RV (?pre @ k)) \<and>
          (\<exists>m vars. modelcontext model amb = Inr (Ref m) \<and> lookup h' m = Some (ModelObj vars) \<and>
             (?pre @ k, v) \<in> set vars)"
        using a m(1) by auto
    qed
    have reg: "\<forall>m vars. modelcontext model amb = Inr (Ref m) \<and> lookup h m = Some (ModelObj vars) \<longrightarrow>
          (\<exists>new. lookup h' m = Some (ModelObj (vars @ new)) \<and>
             (\<forall>(n, v) \<in> set new. \<not> is_numeric h v))"
    proof (clarify)
      fix m vars assume m: "modelcontext model amb = Inr (Ref m)" "lookup h m = Some (ModelObj vars)"
      from get_priors_model[OF run stored m]
      have "lookup h' m = Some (ModelObj (vars @ registrations ?pre h d))" .
      moreover have "\<forall>(n, v) \<in> set (registrations ?pre h d). \<not> is_numeric h v"
        by (auto simp: registrations_def)
      ultimately show "\<exists>new. lookup h' m = Some (ModelObj (vars @ new)) \<and>
             (\<forall>(n, v) \<in> set new. \<not> is_numeric h v)" by blast
    qed
    have "?d' = map (\<lambda>(k, v). (k, if is_numeric h v then v else RV (?pre @ k))) d"
      by (simp add: resolved_items_def)
    moreover have "set (map fst ?d') = set (map fst d)" using keys' by simp
    ultimately show ?thesis using deref num sym reg by blast
  qed
qed

theorem resolve_priors_mapping_witness:
  "stored_priors demo_family demo_heap2 =
     Some [(''n'', PyInt 1), (''p'', PyFloat 0.3), (''sd'', TensorVar ''HalfCauchy'')] \<and>
   distinct (map fst [(''n'', PyInt 1), (''p'', PyFloat 0.3), (''sd'', TensorVar ''HalfCauchy'')]) \<and>
   modelcontext PyNone (Some 3) = Inr (Ref 3) \<and>
   lookup demo_heap2 3 = Some (ModelObj [(''x'', TensorVar ''Normal'')]) \<and>
   (\<exists>r h'. get_priors demo_family PyNone ''g'' (Some 3) demo_heap2 = (Inr r, h') \<and>
      deref_dict h' r = Some [(''n'', PyInt 1), (''p'', PyFloat 0.3), (''sd'', RV ''g_sd'')] \<and>
      lookup h' 3 =
        Some (ModelObj [(''x'', TensorVar ''Normal''), (''g_sd'', TensorVar ''HalfCauchy'')]))"
proof -
  let ?d = "[(''n'', PyInt 1), (''p'', PyFloat 0.3), (''sd'', TensorVar ''HalfCauchy'')]"
  have keys: "distinct (map fst ?d)" by simp
  have ctx: "modelcontext PyNone (Some 3) = Inr (Ref 3)" by (simp add: modelcontext_def)
  have num: "is_numeric demo_heap2 (PyInt 1)" "is_numeric demo_heap2 (PyFloat 0.3)"
    "\<not> is_numeric demo_heap2 (TensorVar ''HalfCauchy'')"
    by simp_all
  note main = resolve_priors_mapping[OF demo_stored keys, of PyNone "Some 3" "Ref 3" "''g''"]
  from main[THEN conjunct1] ctx demo_model obtain r h' where
    run: "get_priors demo_family PyNone ''g'' (Some 3) demo_heap2 = (Inr r, h')"
    by blast
  from main[THEN conjunct2, rule_format, OF run] num
  have d': "deref_dict h' r = Some [(''n'', PyInt 1), (''p'', PyFloat 0.3), (''sd'', RV ''g_sd'')]"
    by (auto simp: name_prefix_def)
  from run demo_get_priors have "lookup h' 3 =
        Some (ModelObj [(''x'', TensorVar ''Normal''), (''g_sd'', TensorVar ''HalfCauchy'')])"
    by (auto simp: lookup_def module_heap_def)
  with run d' demo_stored keys ctx demo_model show ?thesis by blast
qed



section \<open>The model context\<close>

text \<open>
  C8. With no model given and none on the context stack, \<open>get_priors\<close> fails with the
  context lookup's error before it reads a single prior, and leaves the store as it was;
  so does \<open>create_likelihood\<close>, which begins by calling the method. This holds for every
  instance, also one whose priors are all numeric.
\<close>

theorem context_required:
  "get_priors self PyNone name None h = (Inl ContextError, h) \<and>
   (map_of (inst_dict self) ''_get_priors'' = None \<longrightarrow>
      create_likelihood self name y_est y_data PyNone None h = (Inl ContextError, h))"
  by (simp add: get_priors_def modelcontext_def create_likelihood_def call_get_priors_def)

theorem context_required_witness:
  "stored_priors default_binomial module_heap = Some [(''n'', PyInt 1)] \<and>
   is_numeric module_heap (PyInt 1) \<and>
   map_of (inst_dict default_binomial) ''_get_priors'' = None \<and>
   get_priors default_binomial PyNone ''g'' None module_heap = (Inl ContextError, module_heap) \<and>
   create_likelihood default_binomial ''g'' (TensorVar ''est'') (TensorVar ''obs'') PyNone None
     module_heap = (Inl ContextError, module_heap)"
proof -
  have a: "map_of (inst_dict default_binomial) ''_get_priors'' = None"
    by (simp add: default_binomial_def)
  have b: "stored_priors default_binomial module_heap = Some [(''n'', PyInt 1)]"
    by (simp add: run_simps default_binomial_def Binomial_def)
  from context_required[of default_binomial "''g''" module_heap "TensorVar ''est''" "TensorVar ''obs''"]
    a b show ?thesis by simp
qed

section \<open>Frame of \<^verbatim>\<open>create_likelihood\<close>\<close>

text \<open>
  C10. \<open>create_likelihood\<close> never changes the mapping stored as \<^verbatim>\<open>self.priors\<close>, nor any
  other dictionary that existed before the call, whatever the outcome: the parameters of
  the likelihood call live in a dictionary allocated by the call, at a fresh address.
\<close>

theorem stored_priors_unchanged:
  assumes run: "create_likelihood self name y_est y_data model amb h = (res, h')"
    and stored: "stored_priors self h = Some d"
  shows "stored_priors self h' = Some d \<and>
     (\<forall>a d0. lookup h a = Some (DictObj d0) \<longrightarrow> lookup h' a = Some (DictObj d0)) \<and>
     (\<forall>call. res = Inr call \<longrightarrow> lookup h' (length h) = Some (DictObj (params call)))"
proof -
  have frame: "lookup h' a = Some (DictObj d0)" if a: "lookup h a = Some (DictObj d0)" for a d0
  proof -
    from a have lt: "a < length h" by (auto simp: lookup_def split: if_splits)
    obtain gr h1 where cg: "call_get_priors self model name amb h = (gr, h1)"
      by (cases "call_get_priors self model name amb h")
    have h1: "lookup h1 a = Some (DictObj d0)"
    proof (cases "map_of (inst_dict self) ''_get_priors''")
      case None
      with cg have "get_priors self model name amb h = (gr, h1)"
        by (simp add: call_get_priors_def)
      from get_priors_frame[OF this a] show ?thesis by simp
    next
      case (Some v)
      with cg have "h1 = h" by (auto simp: call_get_priors_def split: pyval.splits link_fn.splits)
      with a show ?thesis by simp
    qed
    have set: "lookup (dict_setitem (length h) k v h1) a = Some (DictObj d0)" for k v
      using h1 lt by (auto simp: dict_setitem_def lookup_list_update split: option.splits obj.splits)
    from run cg have "h' = h1 \<or> (\<exists>k v. h' = dict_setitem (length h) k v h1)"
    proof (cases gr)
      case (Inl e)
      with run cg show ?thesis by (simp add: create_likelihood_def)
    next
      case (Inr rv)
      with cg have "\<exists>h0. get_priors self model name amb h = (Inr rv, h0)"
        by (auto simp: call_get_priors_def split: option.splits pyval.splits link_fn.splits)
      with get_priors_fresh have rv: "rv = Ref (length h)" by blast
      from run cg Inr rv show ?thesis
        by (auto simp: create_likelihood_def Let_def split: sum.splits pyval.splits if_splits)
    qed
    with h1 set show ?thesis by auto
  qed
  from stored_priorsD[OF stored] obtain a where
    a: "getattr self ''priors'' = Inr (Ref a)" "lookup h a = Some (DictObj d)" by blast
  from frame[OF a(2)] a(1) have "stored_priors self h' = Some d"
    by (simp add: stored_priors_def deref_dict_def)
  moreover have "\<forall>call. res = Inr call \<longrightarrow> lookup h' (length h) = Some (DictObj (params call))"
  proof (intro allI impI)
    fix call assume "res = Inr call"
    with run have "create_likelihood self name y_est y_data model amb h = (Inr call, h')" by simp
    from create_likelihood_Inr[OF this] obtain lik kw where
      kw: "dict_items (Ref (length h)) h' = Inr kw" and
      call: "call_likelihood lik (name_prefix name @ ''y'') y_data kw = Inr call"
      by blast
    from call_likelihood_Inr[OF call] have "params call = kw" by simp
    with kw show "lookup h' (length h) = Some (DictObj (params call))"
      by (auto simp: dict_items_def split: option.splits obj.splits)
  qed
  ultimately show ?thesis using frame by blast
qed

theorem stored_priors_unchanged_witness:
  "\<exists>call h'.
     create_likelihood demo_family ''g'' (TensorVar ''est'') (TensorVar ''obs'') PyNone (Some 3)
       demo_heap2 = (Inr call, h') \<and>
     stored_priors demo_family demo_heap2 =
       Some [(''n'', PyInt 1), (''p'', PyFloat 0.3), (''sd'', TensorVar ''HalfCauchy'')] \<and>
     stored_priors demo_family h' =
       Some [(''n'', PyInt 1), (''p'', PyFloat 0.3), (''sd'', TensorVar ''HalfCauchy'')] \<and>
     lookup h' (length demo_heap2) = Some (DictObj (params call))"
proof -
  from stored_priors_unchanged[OF demo_run demo_stored] demo_run demo_stored
  show ?thesis by blast
qed

section \<open>The Binomial scenario\<close>

text \<open>
  C5. In a store where \<^verbatim>\<open>Binomial.priors\<close> is the module's \<^verbatim>\<open>{"n": 1}\<close>:
  \<^verbatim>\<open>Binomial()\<close> has priors \<^verbatim>\<open>{"n": 1}\<close>; after \<^verbatim>\<open>Binomial(priors={"n": 5})\<close> the
  resolved priors are \<^verbatim>\<open>{"n": 5}\<close>, the number passed through, and the likelihood call
  receives \<^verbatim>\<open>n = 5\<close> and \<^verbatim>\<open>p = logit(y_est)\<close>. A model context must be at hand and the
  estimate must be an input the tensor library accepts: a tensor, an array, a numpy
  scalar, a float, or an integer of \<open>[-2^63, 2^64)\<close>.
\<close>

theorem binomial_scenario:
  assumes dflt: "lookup h 1 = Some (DictObj [(''n'', PyInt 1)])"
    and over: "lookup h b = Some (DictObj [(''n'', PyInt 5)])"
    and ctx: "model = PyNone \<longrightarrow> amb \<noteq> None"
    and est: "tensor_like h y_est"
  shows "init Binomial [] h = (Inr default_binomial, h) \<and>
    stored_priors default_binomial h = Some [(''n'', PyInt 1)] \<and>
    (\<exists>inst h1. init Binomial [(''priors'', Ref b)] h = (Inr inst, h1) \<and>
       stored_priors inst h1 = Some [(''n'', PyInt 5)] \<and>
       (\<exists>r h2. get_priors inst model name amb h1 = (Inr r, h2) \<and>
          deref_dict h2 r = Some [(''n'', PyInt 5)]) \<and>
       (\<exists>call h3. create_likelihood inst name y_est y_data model amb h1 = (Inr call, h3) \<and>
          ctor call = ''Binomial'' \<and> observed call = y_data \<and>
          call1 logit y_est h = Inr (Elemwise Sigmoid y_est) \<and>
          params call = [(''n'', PyInt 5), (''p'', Elemwise Sigmoid y_est)]))"
proof -
  let ?inst = "\<lparr>inst_class = Binomial, inst_dict = [(''priors'', Ref (length h))]\<rparr>"
  let ?h1 = "h @ [DictObj [(''n'', PyInt 5)]]"
  let ?h2 = "h @ [DictObj [(''n'', PyInt 5)], DictObj [(''n'', PyInt 5)]]"
  have a: "init Binomial [] h = (Inr default_binomial, h)"
    by (simp add: init_def default_binomial_def)
  have b: "stored_priors default_binomial h = Some [(''n'', PyInt 1)]"
    using dflt by (simp add: stored_priors_def getattr_def default_binomial_def Binomial_def
        deref_dict_def)
  have c: "init Binomial [(''priors'', Ref b)] h = (Inr ?inst, ?h1)"
    using dflt over by (rule binomial_override_init)
  have d: "stored_priors ?inst ?h1 = Some [(''n'', PyInt 5)]"
    by (simp add: stored_priors_def getattr_def deref_dict_def lookup_append)
  have e: "get_priors ?inst model name amb ?h1 = (Inr (Ref (Suc (length h))), ?h2)"
    using ctx by (rule binomial_override_get_priors)
  have f: "deref_dict ?h2 (Ref (Suc (length h))) = Some [(''n'', PyInt 5)]"
    by (simp add: deref_dict_def lookup_def nth_append)
  have "tensor_like ?h2 y_est = tensor_like h y_est"
  proof (rule tensor_like_cong)
    fix x
    have "is_numeric ((h @ [DictObj [(''n'', PyInt 5)]]) @ [DictObj [(''n'', PyInt 5)]]) x
      = is_numeric h x"
      by (simp only: is_numeric_append_dict)
    then show "is_numeric ?h2 x = is_numeric h x" by simp
  qed
  with est have est2: "tensor_like ?h2 y_est" by simp
  have link2: "call1 logit y_est ?h2 = Inr (Elemwise Sigmoid y_est)"
    using est2 by (simp add: logit_def)
  have link: "call1 logit y_est h = Inr (Elemwise Sigmoid y_est)"
    using est by (simp add: logit_def)
  have attrs: "getattr ?inst ''link'' = Inr logit" "getattr ?inst ''parent'' = Inr (Str ''p'')"
    "getattr ?inst ''likelihood'' = Inr (DistCtor ''Binomial'')"
    by (simp_all add: getattr_def Binomial_def)
  let ?h3 = "h @ [DictObj [(''n'', PyInt 5)],
      DictObj [(''n'', PyInt 5), (''p'', Elemwise Sigmoid y_est)]]"
  have set: "dict_setitem (Suc (length h)) ''p'' (Elemwise Sigmoid y_est) ?h2 = ?h3"
    by (simp add: dict_setitem_def lookup_def nth_append list_update_append)
  have items: "dict_items (Ref (Suc (length h))) ?h3 =
      Inr [(''n'', PyInt 5), (''p'', Elemwise Sigmoid y_est)]"
    by (simp add: dict_items_def lookup_def nth_append)
  have g: "create_likelihood ?inst name y_est y_data model amb ?h1 =
     (Inr \<lparr>ctor = ''Binomial'', node_name = name_prefix name @ ''y'', observed = y_data,
        params = [(''n'', PyInt 5), (''p'', Elemwise Sigmoid y_est)]\<rparr>, ?h3)"
    by (simp add: create_likelihood_def call_get_priors_def e attrs link2 set items
        call_likelihood_def)
  from a b c d e f g link show ?thesis by simp
qed

theorem binomial_scenario_witness:
  "lookup scenario_heap 1 = Some (DictObj [(''n'', PyInt 1)]) \<and>
   lookup scenario_heap 2 = Some (DictObj [(''n'', PyInt 5)]) \<and>
   tensor_like scenario_heap (TensorVar ''est'') \<and>
   init Binomial [] scenario_heap = (Inr default_binomial, scenario_heap) \<and>
   stored_priors default_binomial scenario_heap = Some [(''n'', PyInt 1)] \<and>
   (\<exists>inst h1. init Binomial [(''priors'', Ref 2)] scenario_heap = (Inr inst, h1) \<and>
       stored_priors inst h1 = Some [(''n'', PyInt 5)] \<and>
       (\<exists>r h2. get_priors inst (Ref 3) ''g'' None h1 = (Inr r, h2) \<and>
          deref_dict h2 r = Some [(''n'', PyInt 5)]) \<and>
       (\<exists>call h3. create_likelihood inst ''g'' (TensorVar ''est'') (TensorVar ''obs'') (Ref 3) None h1
            = (Inr call, h3) \<and>
          ctor call = ''Binomial'' \<and> observed call = TensorVar ''obs'' \<and>
          call1 logit (TensorVar ''est'') scenario_heap = Inr (Elemwise Sigmoid (TensorVar ''est'')) \<and>
          params call = [(''n'', PyInt 5), (''p'', Elemwise Sigmoid (TensorVar ''est''))]))"
proof -
  have a: "lookup scenario_heap 1 = Some (DictObj [(''n'', PyInt 1)])"
    and b: "lookup scenario_heap 2 = Some (DictObj [(''n'', PyInt 5)])"
    by (simp_all add: scenario_heap_def module_heap_def lookup_def)
  have c: "Ref 3 = PyNone \<longrightarrow> (None :: addr option) \<noteq> None" by simp
  have d: "tensor_like scenario_heap (TensorVar ''est'')" by simp
  from binomial_scenario[OF a b c d, of "''g''" "TensorVar ''obs''"] a b d
  show ?thesis by simp
qed

section \<open>Keyword overrides\<close>

text \<open>
  C7. \<^verbatim>\<open>Family.__init__\<close> goes through every keyword it receives (a keyword named
  \<^verbatim>\<open>self\<close> never reaches it: the call raises TypeError). A keyword other than
  \<^verbatim>\<open>priors\<close> becomes an instance attribute holding the value as given, whatever its
  type, so that \<^verbatim>\<open>link\<close>, \<^verbatim>\<open>likelihood\<close> and \<^verbatim>\<open>parent\<close> can be overridden; the
  construction cannot fail on such keywords (names the interpreter manages apart). For
  \<^verbatim>\<open>priors\<close>, given as a dictionary on a class whose class-level priors are a
  dictionary, the instance gets a new dictionary, a shallow copy of the class-level
  mapping updated with the supplied entries, and not the supplied dictionary itself.
\<close>

theorem init_overrides:
  assumes keys: "distinct (map fst kwargs)"
  shows "(''self'' \<in> fst ` set kwargs \<longrightarrow> init cls kwargs h = (Inl TypeError, h)) \<and>
   (''self'' \<notin> fst ` set kwargs \<and>
    (\<forall>k \<in> fst ` set kwargs. k \<noteq> ''priors'' \<and> \<not> managed_name k) \<longrightarrow>
      init cls kwargs h = (Inr \<lparr>inst_class = cls, inst_dict = kwargs\<rparr>, h)) \<and>
   (''self'' \<notin> fst ` set kwargs \<and> (\<forall>k \<in> fst ` set kwargs. \<not> managed_name k) \<and>
    (''priors'', Ref b) \<in> set kwargs \<and>
    getattr \<lparr>inst_class = cls, inst_dict = []\<rparr> ''priors'' = Inr (Ref a) \<and>
    lookup h a = Some (DictObj d) \<and> lookup h b = Some (DictObj d2) \<longrightarrow>
      init cls kwargs h =
        (Inr \<lparr>inst_class = cls,
              inst_dict =
                map (\<lambda>(k, v). (k, if k = ''priors'' then Ref (length h) else v)) kwargs\<rparr>,
         h @ [DictObj (fold (\<lambda>(k, v). AList.update k v) d2 d)])) \<and>
   (init cls kwargs h = (Inr inst, h') \<longrightarrow>
      inst_class inst = cls \<and>
      inst_dict inst =
        map (\<lambda>(k, v). (k, if k = ''priors'' then Ref (length h) else v)) kwargs \<and>
      (\<forall>(k, v) \<in> set kwargs. k \<noteq> ''priors'' \<longrightarrow> getattr inst k = Inr v) \<and>
      (''priors'' \<notin> fst ` set kwargs \<longrightarrow> h' = h) \<and>
      (\<forall>v. (''priors'', v) \<in> set kwargs \<longrightarrow>
         (\<exists>a d b d2.
            getattr \<lparr>inst_class = cls, inst_dict = []\<rparr> ''priors'' = Inr (Ref a) \<and>
            lookup h a = Some (DictObj d) \<and>
            v = Ref b \<and> lookup (h @ [DictObj d]) b = Some (DictObj d2) \<and>
            getattr inst ''priors'' = Inr (Ref (length h)) \<and>
            h' = h @ [DictObj (fold (\<lambda>(k, v). AList.update k v) d2 d)])))"
proof (intro conjI)
  show "''self'' \<in> fst ` set kwargs \<longrightarrow> init cls kwargs h = (Inl TypeError, h)"
    by (simp add: init_def)
  show "''self'' \<notin> fst ` set kwargs \<and>
    (\<forall>k \<in> fst ` set kwargs. k \<noteq> ''priors'' \<and> \<not> managed_name k) \<longrightarrow>
      init cls kwargs h = (Inr \<lparr>inst_class = cls, inst_dict = kwargs\<rparr>, h)"
  proof
    assume a: "''self'' \<notin> fst ` set kwargs \<and>
      (\<forall>k \<in> fst ` set kwargs. k \<noteq> ''priors'' \<and> \<not> managed_name k)"
    then have "''self'' \<notin> fst ` set kwargs"
      and "\<forall>k \<in> fst ` set kwargs. k \<noteq> ''priors'' \<and> \<not> managed_name k"
      by blast+
    with keys show "init cls kwargs h = (Inr \<lparr>inst_class = cls, inst_dict = kwargs\<rparr>, h)"
      by (intro init_plain)
  qed
  show "''self'' \<notin> fst ` set kwargs \<and> (\<forall>k \<in> fst ` set kwargs. \<not> managed_name k) \<and>
    (''priors'', Ref b) \<in> set kwargs \<and>
    getattr \<lparr>inst_class = cls, inst_dict = []\<rparr> ''priors'' = Inr (Ref a) \<and>
    lookup h a = Some (DictObj d) \<and> lookup h b = Some (DictObj d2) \<longrightarrow>
      init cls kwargs h =
        (Inr \<lparr>inst_class = cls,
              inst_dict =
                map (\<lambda>(k, v). (k, if k = ''priors'' then Ref (length h) else v)) kwargs\<rparr>,
         h @ [DictObj (fold (\<lambda>(k, v). AList.update k v) d2 d)])"
  proof
    assume a: "''self'' \<notin> fst ` set kwargs \<and> (\<forall>k \<in> fst ` set kwargs. \<not> managed_name k) \<and>
      (''priors'', Ref b) \<in> set kwargs \<and>
      getattr \<lparr>inst_class = cls, inst_dict = []\<rparr> ''priors'' = Inr (Ref a) \<and>
      lookup h a = Some (DictObj d) \<and> lookup h b = Some (DictObj d2)"
    then have f: "''self'' \<notin> fst ` set kwargs" "\<forall>k \<in> fst ` set kwargs. \<not> managed_name k"
      "(''priors'', Ref b) \<in> set kwargs"
      "getattr \<lparr>inst_class = cls, inst_dict = []\<rparr> ''priors'' = Inr (Ref a)"
      "lookup h a = Some (DictObj d)" "lookup h b = Some (DictObj d2)"
      by blast+
    show "init cls kwargs h =
        (Inr \<lparr>inst_class = cls,
              inst_dict =
                map (\<lambda>(k, v). (k, if k = ''priors'' then Ref (length h) else v)) kwargs\<rparr>,
         h @ [DictObj (fold (\<lambda>(k, v). AList.update k v) d2 d)])"
      by (rule init_priors_total[OF f(1) keys f(2-6)])
  qed
  show "init cls kwargs h = (Inr inst, h') \<longrightarrow>
      inst_class inst = cls \<and>
      inst_dict inst =
        map (\<lambda>(k, v). (k, if k = ''priors'' then Ref (length h) else v)) kwargs \<and>
      (\<forall>(k, v) \<in> set kwargs. k \<noteq> ''priors'' \<longrightarrow> getattr inst k = Inr v) \<and>
      (''priors'' \<notin> fst ` set kwargs \<longrightarrow> h' = h) \<and>
      (\<forall>v. (''priors'', v) \<in> set kwargs \<longrightarrow>
         (\<exists>a d b d2.
            getattr \<lparr>inst_class = cls, inst_dict = []\<rparr> ''priors'' = Inr (Ref a) \<and>
            lookup h a = Some (DictObj d) \<and>
            v = Ref b \<and> lookup (h @ [DictObj d]) b = Some (DictObj d2) \<and>
            getattr inst ''priors'' = Inr (Ref (length h)) \<and>
            h' = h @ [DictObj (fold (\<lambda>(k, v). AList.update k v) d2 d)]))"
  proof
    assume run: "init cls kwargs h = (Inr inst, h')"
    show "inst_class inst = cls \<and>
      inst_dict inst =
        map (\<lambda>(k, v). (k, if k = ''priors'' then Ref (length h) else v)) kwargs \<and>
      (\<forall>(k, v) \<in> set kwargs. k \<noteq> ''priors'' \<longrightarrow> getattr inst k = Inr v) \<and>
      (''priors'' \<notin> fst ` set kwargs \<longrightarrow> h' = h) \<and>
      (\<forall>v. (''priors'', v) \<in> set kwargs \<longrightarrow>
         (\<exists>a d b d2.
            getattr \<lparr>inst_class = cls, inst_dict = []\<rparr> ''priors'' = Inr (Ref a) \<and>
            lookup h a = Some (DictObj d) \<and>
            v = Ref b \<and> lookup (h @ [DictObj d]) b = Some (DictObj d2) \<and>
            getattr inst ''priors'' = Inr (Ref (length h)) \<and>
            h' = h @ [DictObj (fold (\<lambda>(k, v). AList.update k v) d2 d)]))"
      by (rule init_Inr[OF run keys])
  qed
qed

theorem init_overrides_witness:
  "distinct (map fst override_kwargs) \<and>
   ''self'' \<notin> fst ` set override_kwargs \<and>
   \<not> managed_name ''link'' \<and> \<not> managed_name ''priors'' \<and> \<not> managed_name ''parent'' \<and>
   getattr \<lparr>inst_class = Binomial, inst_dict = []\<rparr> ''priors'' = Inr (Ref 1) \<and>
   lookup demo_heap 1 = Some (DictObj [(''n'', PyInt 1)]) \<and>
   lookup demo_heap 2 =
     Some (DictObj [(''p'', PyFloat 0.3), (''sd'', TensorVar ''HalfCauchy'')]) \<and>
   init Binomial override_kwargs demo_heap =
     (Inr \<lparr>inst_class = Binomial,
          inst_dict = [(''link'', identity), (''priors'', Ref 4), (''parent'', PyInt 7)]\<rparr>,
      demo_heap2) \<and>
   getattr \<lparr>inst_class = Binomial,
          inst_dict = [(''link'', identity), (''priors'', Ref 4), (''parent'', PyInt 7)]\<rparr>
     ''parent'' = Inr (PyInt 7) \<and>
   distinct (map fst [(''link'', PyInt 5), (''colour'', Str ''red'')]) \<and>
   \<not> managed_name ''colour'' \<and>
   init Family [(''link'', PyInt 5), (''colour'', Str ''red'')] [] =
     (Inr \<lparr>inst_class = Family, inst_dict = [(''link'', PyInt 5), (''colour'', Str ''red'')]\<rparr>, []) \<and>
   distinct (map fst [(''self'', PyInt 1)]) \<and>
   init Binomial [(''self'', PyInt 1)] [] = (Inl TypeError, [])"
proof -
  have keys: "distinct (map fst override_kwargs)"
    and noself: "''self'' \<notin> fst ` set override_kwargs"
    and given: "(''priors'', Ref 2) \<in> set override_kwargs"
    by (simp_all add: override_kwargs_def)
  have ok: "\<not> managed_name ''link''" "\<not> managed_name ''priors''" "\<not> managed_name ''parent''"
    "\<not> managed_name ''colour''"
    by (simp_all add: managed_name_def)
  then have okall: "\<forall>k \<in> fst ` set override_kwargs. \<not> managed_name k"
    by (simp add: override_kwargs_def)
  have base: "getattr \<lparr>inst_class = Binomial, inst_dict = []\<rparr> ''priors'' = Inr (Ref 1)"
    by (simp add: getattr_def Binomial_def)
  have objs: "lookup demo_heap 1 = Some (DictObj [(''n'', PyInt 1)])"
    "lookup demo_heap 2 =
       Some (DictObj [(''p'', PyFloat 0.3), (''sd'', TensorVar ''HalfCauchy'')])"
    by (simp_all add: lookup_def demo_heap_def module_heap_def)
  from init_overrides[OF keys, where cls = Binomial and b = 2 and a = 1 and h = demo_heap
        and d = "[(''n'', PyInt 1)]"
        and ?d2.0 = "[(''p'', PyFloat 0.3), (''sd'', TensorVar ''HalfCauchy'')]",
      THEN conjunct2, THEN conjunct2, THEN conjunct1]
    noself okall given base objs
  have run: "init Binomial override_kwargs demo_heap =
     (Inr \<lparr>inst_class = Binomial,
          inst_dict = [(''link'', identity), (''priors'', Ref 4), (''parent'', PyInt 7)]\<rparr>,
      demo_heap2)"
    by (simp add: override_kwargs_def demo_heap_def demo_heap2_def module_heap_def)
  from init_overrides[OF keys, THEN conjunct2, THEN conjunct2, THEN conjunct2, rule_format,
      OF run]
  have par: "getattr \<lparr>inst_class = Binomial,
          inst_dict = [(''link'', identity), (''priors'', Ref 4), (''parent'', PyInt 7)]\<rparr>
     ''parent'' = Inr (PyInt 7)"
    by (auto simp: override_kwargs_def)
  have keys2: "distinct (map fst [(''link'', PyInt 5), (''colour'', Str ''red'')])" by simp
  from init_overrides[OF keys2, where cls = Family and h = "[]", THEN conjunct2, THEN conjunct1]
    ok
  have plain: "init Family [(''link'', PyInt 5), (''colour'', Str ''red'')] [] =
     (Inr \<lparr>inst_class = Family, inst_dict = [(''link'', PyInt 5), (''colour'', Str ''red'')]\<rparr>, [])"
    by simp
  have keys3: "distinct (map fst [(''self'', PyInt 1)])" by simp
  from init_overrides[OF keys3, where cls = Binomial and h = "[]", THEN conjunct1]
  have self: "init Binomial [(''self'', PyInt 1)] [] = (Inl TypeError, [])" by simp
  from keys noself ok base objs run par keys2 plain keys3 self show ?thesis by simp
qed

section \<open>The copy of the default priors\<close>

text \<open>
  C3, as stated, fails: the copy of line 54 is shallow. Two instances built with a priors
  override from a class whose default mapping holds an array both refer, as the class
  does, to that one array (address 3): mutable state is shared across instances.
\<close>

theorem deep_copy_counterexample:
  "\<exists>i1 h1 i2 h2 d1 d2.
     init array_family [(''priors'', Ref 4)] array_heap = (Inr i1, h1) \<and>
     init array_family [(''priors'', Ref 4)] h1 = (Inr i2, h2) \<and>
     stored_priors i1 h2 = Some d1 \<and> stored_priors i2 h2 = Some d2 \<and>
     stored_priors \<lparr>inst_class = array_family, inst_dict = []\<rparr> h2 = Some [(''w'', Ref 3)] \<and>
     lookup h2 3 = Some (ArrayObj [1, 2]) \<and>
     shared_objects d1 d2 = [3] \<and> \<not> no_shared_state d1 d2 \<and>
     shared_objects d1 [(''w'', Ref 3)] = [3]"
proof -
  let ?h1 = "array_heap @ [DictObj [(''w'', Ref 3), (''extra'', PyInt 5)]]"
  let ?h2 = "array_heap @ [DictObj [(''w'', Ref 3), (''extra'', PyInt 5)],
                    DictObj [(''w'', Ref 3), (''extra'', PyInt 5)]]"
  let ?i1 = "\<lparr>inst_class = array_family, inst_dict = [(''priors'', Ref 5)]\<rparr>"
  let ?i2 = "\<lparr>inst_class = array_family, inst_dict = [(''priors'', Ref 6)]\<rparr>"
  have "stored_priors ?i1 ?h2 = Some [(''w'', Ref 3), (''extra'', PyInt 5)]"
    "stored_priors ?i2 ?h2 = Some [(''w'', Ref 3), (''extra'', PyInt 5)]"
    "stored_priors \<lparr>inst_class = array_family, inst_dict = []\<rparr> ?h2 = Some [(''w'', Ref 3)]"
    "lookup ?h2 3 = Some (ArrayObj [1, 2])"
    "shared_objects [(''w'', Ref 3), (''extra'', PyInt 5)] [(''w'', Ref 3), (''extra'', PyInt 5)] = [3]"
    "shared_objects [(''w'', Ref 3), (''extra'', PyInt 5)] [(''w'', Ref 3)] = [3]"
    "\<not> no_shared_state [(''w'', Ref 3), (''extra'', PyInt 5)] [(''w'', Ref 3), (''extra'', PyInt 5)]"
    by (simp_all add: run_simps array_family_def array_heap_def shared_objects_def
        no_shared_state_def)
  with array_init_first array_init_second show ?thesis by blast
qed

text \<open>
  C3, amended. A construction with a priors override shallow-copies the class-level
  mapping: the instance's mapping is a new object, it holds the supplied entries and the
  defaults they do not replace, with the very values (references included) of the two
  sources, and every object that existed before, the class-level mapping among them, is
  unmodified.
\<close>

theorem priors_override_shallow_copy:
  assumes run: "init cls kwargs h = (Inr inst, h')"
    and keys: "distinct (map fst kwargs)"
    and given: "(''priors'', v) \<in> set kwargs"
  shows "\<exists>a d b d2 merged.
     getattr \<lparr>inst_class = cls, inst_dict = []\<rparr> ''priors'' = Inr (Ref a) \<and>
     lookup h a = Some (DictObj d) \<and>
     v = Ref b \<and> lookup (h @ [DictObj d]) b = Some (DictObj d2) \<and>
     getattr inst ''priors'' = Inr (Ref (length h)) \<and> a < length h \<and>
     h' = h @ [DictObj merged] \<and>
     lookup h' a = Some (DictObj d) \<and>
     stored_priors inst h' = Some merged \<and>
     merged = fold (\<lambda>(k, x). AList.update k x) d2 d \<and>
     fst ` set merged = fst ` set d \<union> fst ` set d2 \<and>
     (\<forall>(k, x) \<in> set d. k \<notin> fst ` set d2 \<longrightarrow> map_of merged k = map_of d k) \<and>
     (distinct (map fst d2) \<longrightarrow> (\<forall>(k, x) \<in> set d2. map_of merged k = Some x))"
proof -
  from init_Inr[OF run keys] given obtain a d b d2 where
    st: "getattr \<lparr>inst_class = cls, inst_dict = []\<rparr> ''priors'' = Inr (Ref a)"
      "lookup h a = Some (DictObj d)" "v = Ref b"
      "lookup (h @ [DictObj d]) b = Some (DictObj d2)"
      "getattr inst ''priors'' = Inr (Ref (length h))"
      "h' = h @ [DictObj (fold (\<lambda>(k, v). AList.update k v) d2 d)]"
    by blast
  let ?merged = "fold (\<lambda>(k, x). AList.update k x) d2 d"
  from st(2) have lt: "a < length h" by (auto simp: lookup_def split: if_splits)
  with st(2,6) have keep: "lookup h' a = Some (DictObj d)"
    by (simp add: lookup_append)
  from st(5,6) have sp: "stored_priors inst h' = Some ?merged"
    by (simp add: stored_priors_def deref_dict_def lookup_append)
  have k: "fst ` set ?merged = fst ` set d \<union> fst ` set d2"
    by (rule fold_update_keys)
  have o: "\<forall>(k, x) \<in> set d. k \<notin> fst ` set d2 \<longrightarrow> map_of ?merged k = map_of d k"
    by (auto simp: map_of_fold_update_other)
  have n: "distinct (map fst d2) \<longrightarrow> (\<forall>(k, x) \<in> set d2. map_of ?merged k = Some x)"
    by (auto simp: map_of_fold_update)
  from st lt keep sp k o n show ?thesis by blast
qed

theorem priors_override_shallow_copy_witness:
  "init array_family [(''priors'', Ref 4)] array_heap =
     (Inr \<lparr>inst_class = array_family, inst_dict = [(''priors'', Ref 5)]\<rparr>,
      array_heap @ [DictObj [(''w'', Ref 3), (''extra'', PyInt 5)]]) \<and>
   distinct (map fst [(''priors'', Ref 4)]) \<and>
   (\<exists>merged.
      stored_priors \<lparr>inst_class = array_family, inst_dict = [(''priors'', Ref 5)]\<rparr>
        (array_heap @ [DictObj [(''w'', Ref 3), (''extra'', PyInt 5)]]) = Some merged \<and>
      fst ` set merged = {''w'', ''extra''} \<and>
      lookup (array_heap @ [DictObj [(''w'', Ref 3), (''extra'', PyInt 5)]]) 2 =
        Some (DictObj [(''w'', Ref 3)]))"
proof -
  have keys: "distinct (map fst [(''priors'', Ref 4)])" by simp
  have given: "(''priors'', Ref 4) \<in> set [(''priors'', Ref 4)]" by simp
  have cls: "getattr \<lparr>inst_class = array_family, inst_dict = []\<rparr> ''priors'' = Inr (Ref 2)"
    by (simp add: getattr_def array_family_def)
  have objs: "lookup array_heap 2 = Some (DictObj [(''w'', Ref 3)])"
    "lookup (array_heap @ [DictObj [(''w'', Ref 3)]]) 4 = Some (DictObj [(''extra'', PyInt 5)])"
    by (simp_all add: lookup_def array_heap_def module_heap_def)
  from priors_override_shallow_copy[OF array_init_first keys given] cls objs
  have "\<exists>merged.
      stored_priors \<lparr>inst_class = array_family, inst_dict = [(''priors'', Ref 5)]\<rparr>
        (array_heap @ [DictObj [(''w'', Ref 3), (''extra'', PyInt 5)]]) = Some merged \<and>
      fst ` set merged = {''w'', ''extra''} \<and>
      lookup (array_heap @ [DictObj [(''w'', Ref 3), (''extra'', PyInt 5)]]) 2 =
        Some (DictObj [(''w'', Ref 3)])"
    by auto
  with array_init_first keys show ?thesis by blast
qed

section \<open>Families without default priors\<close>

text \<open>
  C4. For \<^verbatim>\<open>StudentT\<close>, \<^verbatim>\<open>Normal\<close>, \<^verbatim>\<open>Poisson\<close> and \<^verbatim>\<open>NegativeBinomial\<close>, whose
  class-level priors are \<^verbatim>\<open>None\<close>: default construction succeeds, but \<open>get_priors\<close> and
  \<open>create_likelihood\<close> fail on the instance, with the context error when there is no model
  and with AttributeError on \<^verbatim>\<open>None.items()\<close> otherwise, and the store gains at most the
  empty dictionary of line 69: no variable is registered and no likelihood call is made.
  A construction with a priors override fails on \<^verbatim>\<open>None.update\<close> (or, with a keyword
  named \<^verbatim>\<open>self\<close>, at the call itself). \<^verbatim>\<open>Binomial()\<close> resolves its priors.
\<close>

theorem none_priors_fail:
  assumes cls: "cls \<in> {StudentT, Normal, Poisson, NegativeBinomial}"
  shows "init cls [] h = (Inr \<lparr>inst_class = cls, inst_dict = []\<rparr>, h) \<and>
    get_priors \<lparr>inst_class = cls, inst_dict = []\<rparr> model name amb h =
      (if model = PyNone \<and> amb = None then (Inl ContextError, h)
       else (Inl AttributeError, h @ [DictObj []])) \<and>
    create_likelihood \<lparr>inst_class = cls, inst_dict = []\<rparr> name y_est y_data model amb h =
      (if model = PyNone \<and> amb = None then (Inl ContextError, h)
       else (Inl AttributeError, h @ [DictObj []])) \<and>
    ((\<forall>k \<in> fst ` set pre. k \<noteq> ''priors'' \<and> \<not> managed_name k) \<longrightarrow>
       init cls (pre @ (''priors'', v) # post) h =
         (if ''self'' \<in> fst ` set pre \<union> fst ` set post then (Inl TypeError, h)
          else (Inl AttributeError, h))) \<and>
    (lookup h 1 = Some (DictObj [(''n'', PyInt 1)]) \<and> (model = PyNone \<longrightarrow> amb \<noteq> None) \<longrightarrow>
       (\<exists>r h'. get_priors default_binomial model name amb h = (Inr r, h') \<and>
          deref_dict h' r = Some [(''n'', PyInt 1)]))"
proof (intro conjI impI)
  let ?self = "\<lparr>inst_class = cls, inst_dict = []\<rparr>"
  have ga: "getattr ?self ''priors'' = Inr PyNone"
    using none_priors_class[OF cls] by (simp add: getattr_def)
  show "init cls [] h = (Inr ?self, h)" by (simp add: init_def)
  show gp: "get_priors ?self model name amb h =
      (if model = PyNone \<and> amb = None then (Inl ContextError, h)
       else (Inl AttributeError, h @ [DictObj []]))"
    using ga by (rule get_priors_no_mapping)
  show "create_likelihood ?self name y_est y_data model amb h =
      (if model = PyNone \<and> amb = None then (Inl ContextError, h)
       else (Inl AttributeError, h @ [DictObj []]))"
    by (simp add: create_likelihood_def call_get_priors_def gp)
  show "init cls (pre @ (''priors'', v) # post) h =
         (if ''self'' \<in> fst ` set pre \<union> fst ` set post then (Inl TypeError, h)
          else (Inl AttributeError, h))"
    if ok: "\<forall>k \<in> fst ` set pre. k \<noteq> ''priors'' \<and> \<not> managed_name k"
  proof -
    let ?self1 = "?self\<lparr>inst_dict := fold (\<lambda>(k, v). AList.update k v) pre (inst_dict ?self)\<rparr>"
    from ok have "''priors'' \<notin> fst ` set (fold (\<lambda>(k, v). AList.update k v) pre [])"
      by (auto simp: fold_update_keys)
    then have "map_of (fold (\<lambda>(k, v). AList.update k v) pre []) ''priors'' = None"
      by (simp add: map_of_eq_None_iff)
    with none_priors_class[OF cls] have "getattr ?self1 ''priors'' = Inr PyNone"
      by (simp add: getattr_def)
    then have "init_loop ?self1 ((''priors'', v) # post) h = (Inl AttributeError, h)"
      by (rule init_loop_priors_on_none)
    with init_loop_append_plain[OF ok, of ?self "(''priors'', v) # post" h]
    show ?thesis by (auto simp: init_def)
  qed
  show "\<exists>r h'. get_priors default_binomial model name amb h = (Inr r, h') \<and>
          deref_dict h' r = Some [(''n'', PyInt 1)]"
    if a: "lookup h 1 = Some (DictObj [(''n'', PyInt 1)]) \<and> (model = PyNone \<longrightarrow> amb \<noteq> None)"
  proof -
    from a obtain mdl where mdl: "modelcontext model amb = Inr mdl"
      by (cases model; cases amb) (auto simp: modelcontext_def)
    from a have lt: "Suc 0 < length h" by (auto simp: lookup_def split: if_splits)
    have ga: "getattr default_binomial ''priors'' = Inr (Ref (Suc 0))"
      by (simp add: getattr_def default_binomial_def Binomial_def)
    have items: "dict_items (Ref (Suc 0)) (h @ [DictObj []]) = Inr [(''n'', PyInt 1)]"
      using a lt by (auto simp: dict_items_def lookup_def nth_append)
    have set: "dict_setitem (length h) ''n'' (PyInt 1) (h @ [DictObj []])
        = h @ [DictObj [(''n'', PyInt 1)]]"
      by (simp add: dict_setitem_def lookup_def)
    have "get_priors default_binomial model name amb h
        = (Inr (Ref (length h)), h @ [DictObj [(''n'', PyInt 1)]])"
      by (simp add: get_priors_def mdl alloc_def ga items set)
    moreover have "deref_dict (h @ [DictObj [(''n'', PyInt 1)]]) (Ref (length h))
        = Some [(''n'', PyInt 1)]"
      by (simp add: deref_dict_def lookup_append)
    ultimately show ?thesis by blast
  qed
qed

theorem none_priors_fail_witness:
  "Normal \<in> {StudentT, Normal, Poisson, NegativeBinomial} \<and>
   init Normal [] module_heap = (Inr \<lparr>inst_class = Normal, inst_dict = []\<rparr>, module_heap) \<and>
   get_priors \<lparr>inst_class = Normal, inst_dict = []\<rparr> (Ref 3) ''g'' None demo_heap =
     (Inl AttributeError, demo_heap @ [DictObj []]) \<and>
   create_likelihood \<lparr>inst_class = Normal, inst_dict = []\<rparr> ''g'' (TensorVar ''est'')
       (TensorVar ''obs'') (Ref 3) None demo_heap =
     (Inl AttributeError, demo_heap @ [DictObj []]) \<and>
   \<not> managed_name ''link'' \<and>
   init Normal ([(''link'', exp_link)] @ (''priors'', Ref 2) # []) demo_heap =
     (Inl AttributeError, demo_heap) \<and>
   lookup demo_heap 1 = Some (DictObj [(''n'', PyInt 1)]) \<and>
   (\<exists>r h'. get_priors default_binomial (Ref 3) ''g'' None demo_heap = (Inr r, h') \<and>
      deref_dict h' r = Some [(''n'', PyInt 1)])"
proof -
  have mem: "Normal \<in> {StudentT, Normal, Poisson, NegativeBinomial}" by simp
  have ok: "\<not> managed_name ''link''" by (simp add: managed_name_def)
  have dflt: "lookup demo_heap 1 = Some (DictObj [(''n'', PyInt 1)])"
    by (simp add: lookup_def demo_heap_def module_heap_def)
  from none_priors_fail[OF mem, of module_heap]
  have a: "init Normal [] module_heap = (Inr \<lparr>inst_class = Normal, inst_dict = []\<rparr>, module_heap)"
    by simp
  from none_priors_fail[OF mem, of demo_heap "Ref 3" "''g''" None "TensorVar ''est''"
      "TensorVar ''obs''" "[(''link'', exp_link)]" "Ref 2" "[]"] ok dflt
  show ?thesis using mem a by simp
qed

end
